theory Spec2Isabelle
  imports Complex_Main
begin

section \<open>Gesture classification and formation control\<close>

text \<open>
  A shallow embedding of \<^verbatim>\<open>hand-recognition.service.ts\<close> and
  \<^verbatim>\<open>visualizer.component.ts\<close>.

  Conventions of the embedding:
  \<^item> an array read \<^verbatim>\<open>a[i]\<close> is \<open>index a i\<close>, which is \<open>None\<close>
    (\<^verbatim>\<open>undefined\<close>) out of range; reading a property of \<^verbatim>\<open>undefined\<close>
    throws, which is the value \<open>Inl (TypeError, s)\<close> carrying the state \<open>s\<close> reached
    when the exception leaves the function;
  \<^item> a signal is the field holding its value, \<^verbatim>\<open>set\<close> is a record update; the
    \<^verbatim>\<open>effect\<close> of the component runs when the signal it reads has changed;
  \<^item> \<^verbatim>\<open>Math.random()\<close> reads the next element of a sequence held in the state;
  \<^item> the classifier and the animation loop compute with the Numbers of JavaScript. Their
    definitions take the type \<open>'n\<close> of Numbers and the operations on it as a parameter
    \<open>ar\<close>, so that what is proved for every \<open>ar\<close> holds for the operations of the
    language, whatever they round to and whatever they do with infinities and NaN. The
    instance \<open>binary64\<close> defined below is IEEE 754 double precision, rounding to nearest,
    ties to even;
  \<^item> the loops of \<^verbatim>\<open>createObjects\<close> and \<^verbatim>\<open>transitionTo\<close> are taken over the
    reals.
\<close>

subsection \<open>The operations on Numbers\<close>

text \<open>
  \<open>sub\<close>, \<open>add\<close> and \<open>mul\<close> are \<^verbatim>\<open>-\<close>, \<^verbatim>\<open>+\<close> and \<^verbatim>\<open>*\<close>; \<open>half x\<close> is
  \<^verbatim>\<open>x / 2\<close>; \<open>pow2 x\<close> is \<^verbatim>\<open>Math.pow(x, 2)\<close>; \<open>lt\<close> is \<^verbatim>\<open><\<close>; \<open>c005\<close> is the
  Number that the literal \<^verbatim>\<open>0.05\<close> denotes.
\<close>

record 'n Arithmetic =
  sub :: "'n \<Rightarrow> 'n \<Rightarrow> 'n"
  add :: "'n \<Rightarrow> 'n \<Rightarrow> 'n"
  mul :: "'n \<Rightarrow> 'n \<Rightarrow> 'n"
  half :: "'n \<Rightarrow> 'n"
  pow2 :: "'n \<Rightarrow> 'n"
  Math_sqrt :: "'n \<Rightarrow> 'n"
  lt :: "'n \<Rightarrow> 'n \<Rightarrow> bool"
  c005 :: 'n

subsection \<open>hand-recognition.service.ts\<close>

datatype GestureType = NONE | OPEN_PALM | FIST | PINCH

datatype js_error = TypeError

datatype 'n NormalizedLandmark = Landmark (lx: 'n) (ly: 'n) (lz: 'n)

record 'n HandRecognitionService =
  currentGesture :: GestureType
  pinchCenter :: "('n \<times> 'n) option"

text \<open>The field initialisers: \<^verbatim>\<open>signal('NONE')\<close> and \<^verbatim>\<open>signal(null)\<close>.\<close>

definition initialService :: "'n HandRecognitionService" where
  "initialService = \<lparr>currentGesture = NONE, pinchCenter = None\<rparr>"

definition index :: "'a list \<Rightarrow> nat \<Rightarrow> 'a option" where
  "index a i = (if i < length a then Some (a ! i) else None)"

text \<open>
  \<^verbatim>\<open>dist(p1, p2)\<close>: the planar distance as the code computes it; \<^verbatim>\<open>p1.x\<close> throws
  when the point is \<^verbatim>\<open>undefined\<close>.
\<close>

definition dist_lm ::
  "'n Arithmetic \<Rightarrow> 'n NormalizedLandmark option \<Rightarrow> 'n NormalizedLandmark option
     \<Rightarrow> js_error + 'n" where
  "dist_lm ar p1 p2 =
     (case p1 of None \<Rightarrow> Inl TypeError
      | Some a \<Rightarrow>
          (case p2 of None \<Rightarrow> Inl TypeError
           | Some b \<Rightarrow>
               Inr (Math_sqrt ar
                     (add ar (pow2 ar (sub ar (lx a) (lx b)))
                             (pow2 ar (sub ar (ly a) (ly b)))))))"

text \<open>\<^verbatim>\<open>isFingerClosed(tipIdx, pipIdx)\<close>, a closure over the frame and the wrist.\<close>

definition isFingerClosed ::
  "'n Arithmetic \<Rightarrow> 'n NormalizedLandmark list \<Rightarrow> 'n NormalizedLandmark option \<Rightarrow> nat \<Rightarrow> nat
     \<Rightarrow> js_error + bool" where
  "isFingerClosed ar landmarks wrist tipIdx pipIdx =
     (case dist_lm ar (index landmarks tipIdx) wrist of Inl e \<Rightarrow> Inl e
      | Inr dtip \<Rightarrow>
          (case dist_lm ar (index landmarks pipIdx) wrist of Inl e \<Rightarrow> Inl e
           | Inr dpip \<Rightarrow> Inr (lt ar dtip dpip)))"

definition analyzeGesture ::
  "'n Arithmetic \<Rightarrow> 'n NormalizedLandmark list \<Rightarrow> 'n HandRecognitionService
     \<Rightarrow> (js_error \<times> 'n HandRecognitionService) + 'n HandRecognitionService" where
  "analyzeGesture ar landmarks s =
     (let thumbTip = index landmarks 4;
          indexTip = index landmarks 8;
          middleTip = index landmarks 12;
          ringTip = index landmarks 16;
          pinkyTip = index landmarks 20;
          wrist = index landmarks 0
      in case dist_lm ar thumbTip indexTip of Inl e \<Rightarrow> Inl (e, s)
         | Inr pinchDist \<Rightarrow>
             (let isPinch = lt ar pinchDist (c005 ar) in
              if isPinch then
                (let s1 = s\<lparr>currentGesture := PINCH\<rparr> in
                 case thumbTip of None \<Rightarrow> Inl (TypeError, s1)
                 | Some t \<Rightarrow>
                     (case indexTip of None \<Rightarrow> Inl (TypeError, s1)
                      | Some i \<Rightarrow>
                          Inr (s1\<lparr>pinchCenter :=
                                 Some (half ar (add ar (lx t) (lx i)),
                                       half ar (add ar (ly t) (ly i)))\<rparr>)))
              else
                (let s1 = s\<lparr>pinchCenter := None\<rparr> in
                 case isFingerClosed ar landmarks wrist 8 6 of Inl e \<Rightarrow> Inl (e, s1)
                 | Inr indexClosed \<Rightarrow>
                 (case isFingerClosed ar landmarks wrist 12 10 of Inl e \<Rightarrow> Inl (e, s1)
                  | Inr middleClosed \<Rightarrow>
                  (case isFingerClosed ar landmarks wrist 16 14 of Inl e \<Rightarrow> Inl (e, s1)
                   | Inr ringClosed \<Rightarrow>
                   (case isFingerClosed ar landmarks wrist 20 18 of Inl e \<Rightarrow> Inl (e, s1)
                    | Inr pinkyClosed \<Rightarrow>
                        if indexClosed \<and> middleClosed \<and> ringClosed \<and> pinkyClosed then
                          Inr (s1\<lparr>currentGesture := FIST\<rparr>)
                        else if \<not> indexClosed \<and> \<not> middleClosed \<and> \<not> ringClosed
                                \<and> \<not> pinkyClosed \<and> \<not> isPinch then
                          Inr (s1\<lparr>currentGesture := OPEN_PALM\<rparr>)
                        else Inr s1))))))"

text \<open>
  One run of \<^verbatim>\<open>predictWebcam\<close>. \<open>NotReady\<close> is the guard
  \<^verbatim>\<open>this.handLandmarker && video.currentTime !== 0\<close> failing; \<open>Results r\<close> carries
  \<^verbatim>\<open>results.landmarks\<close>. The result \<open>Inr\<close> means that
  \<^verbatim>\<open>requestAnimationFrame(predictWebcam)\<close> was reached; an exception of
  \<^verbatim>\<open>analyzeGesture\<close> leaves the function before that call.
\<close>

datatype 'n cycle = NotReady | Results "'n NormalizedLandmark list list option"

definition predictWebcam ::
  "'n Arithmetic \<Rightarrow> 'n cycle \<Rightarrow> 'n HandRecognitionService
     \<Rightarrow> (js_error \<times> 'n HandRecognitionService) + 'n HandRecognitionService" where
  "predictWebcam ar c s =
     (case c of NotReady \<Rightarrow> Inr s
      | Results r \<Rightarrow>
          (case r of None \<Rightarrow> Inr s
           | Some hands \<Rightarrow>
               (case index hands 0 of None \<Rightarrow> Inr s
                | Some landmarks \<Rightarrow> analyzeGesture ar landmarks s)))"

text \<open>
  The chain of animation frames started by \<^verbatim>\<open>startPrediction\<close>: each run
  schedules the next one, so the chain ends at the first run that throws.
\<close>

fun predictLoop ::
  "'n Arithmetic \<Rightarrow> 'n cycle list \<Rightarrow> 'n HandRecognitionService
     \<Rightarrow> (js_error \<times> 'n HandRecognitionService) + 'n HandRecognitionService" where
  "predictLoop ar [] s = Inr s"
| "predictLoop ar (c # cs) s =
     (case predictWebcam ar c s of Inl e \<Rightarrow> Inl e | Inr s' \<Rightarrow> predictLoop ar cs s')"

text \<open>The state of the service, whether or not the chain has ended.\<close>

definition serviceState ::
  "(js_error \<times> 'n HandRecognitionService) + 'n HandRecognitionService
     \<Rightarrow> 'n HandRecognitionService" where
  "serviceState r = (case r of Inl (e, s) \<Rightarrow> s | Inr s \<Rightarrow> s)"

text \<open>
  The tests of the classifier as it computes them: the distance that \<^verbatim>\<open>dist\<close> returns
  for two landmarks, and the comparison of \<^verbatim>\<open>isFingerClosed\<close>.
\<close>

definition planar :: "'n Arithmetic \<Rightarrow> 'n NormalizedLandmark \<Rightarrow> 'n NormalizedLandmark \<Rightarrow> 'n" where
  "planar ar a b =
     Math_sqrt ar (add ar (pow2 ar (sub ar (lx a) (lx b))) (pow2 ar (sub ar (ly a) (ly b))))"

definition fingerClosed :: "'n Arithmetic \<Rightarrow> 'n NormalizedLandmark list \<Rightarrow> nat \<Rightarrow> nat \<Rightarrow> bool" where
  "fingerClosed ar landmarks tipIdx pipIdx =
     lt ar (planar ar (landmarks ! tipIdx) (landmarks ! 0))
           (planar ar (landmarks ! pipIdx) (landmarks ! 0))"

definition allClosed :: "'n Arithmetic \<Rightarrow> 'n NormalizedLandmark list \<Rightarrow> bool" where
  "allClosed ar landmarks =
     (fingerClosed ar landmarks 8 6 \<and> fingerClosed ar landmarks 12 10
      \<and> fingerClosed ar landmarks 16 14 \<and> fingerClosed ar landmarks 20 18)"

definition allOpen :: "'n Arithmetic \<Rightarrow> 'n NormalizedLandmark list \<Rightarrow> bool" where
  "allOpen ar landmarks =
     (\<not> fingerClosed ar landmarks 8 6 \<and> \<not> fingerClosed ar landmarks 12 10
      \<and> \<not> fingerClosed ar landmarks 16 14 \<and> \<not> fingerClosed ar landmarks 20 18)"

text \<open>
  The relation between the two signals of the service that every run of
  \<^verbatim>\<open>predictWebcam\<close> keeps.
\<close>

definition pinchCenterInv :: "'n HandRecognitionService \<Rightarrow> bool" where
  "pinchCenterInv s = (pinchCenter s \<noteq> None \<longrightarrow> currentGesture s = PINCH)"

subsection \<open>visualizer.component.ts\<close>

text \<open>
  Of \<^verbatim>\<open>THREE.Vector3\<close>, \<^verbatim>\<open>THREE.Euler\<close> and \<^verbatim>\<open>THREE.Mesh\<close> the
  embedding keeps the coordinates, the position, the rotation and the two entries of
  \<^verbatim>\<open>userData\<close>. \<open>targetPosition\<close> is \<open>None\<close> when the entry holds
  \<^verbatim>\<open>undefined\<close>.
\<close>

datatype 'n Vector3 = Vector3 (vx: 'n) (vy: 'n) (vz: 'n)

datatype 'n Euler = Euler (ex: 'n) (ey: 'n) (ez: 'n)

record 'n Mesh =
  position :: "'n Vector3"
  rotation :: "'n Euler"
  targetPosition :: "'n Vector3 option"
  targetRotation :: "'n Euler"

text \<open>
  The source of \<^verbatim>\<open>Math.random()\<close>: the sequence of the numbers it will return and
  how many of them have been taken.
\<close>

record RandomSource =
  draws :: "nat \<Rightarrow> real"
  used :: nat

definition Math_random :: "RandomSource \<Rightarrow> real \<times> RandomSource" where
  "Math_random r = (draws r (used r), r\<lparr>used := Suc (used r)\<rparr>)"

record 'n Targets =
  scatter :: "'n Vector3 list"
  tree :: "'n Vector3 list"
  focus :: "'n Vector3 list"

record 'n Visualizer =
  meshes :: "'n Mesh list"
  imageCount :: nat
  targets :: "'n Targets"
  rng :: RandomSource

text \<open>The field initialisers of the component, over a given random source.\<close>

definition initialVisualizer :: "RandomSource \<Rightarrow> real Visualizer" where
  "initialVisualizer r =
     \<lparr>meshes = [], imageCount = 50,
      targets = \<lparr>scatter = [], tree = [], focus = []\<rparr>, rng = r\<rparr>"

text \<open>The three loops of \<^verbatim>\<open>createObjects\<close> that fill \<^verbatim>\<open>this.targets\<close>.\<close>

function scatterLoop :: "nat \<Rightarrow> real Visualizer \<Rightarrow> real Visualizer" where
  "scatterLoop i v =
     (if i < imageCount v then
        (let (a, r1) = Math_random (rng v); x = a * 4000 - 2000;
             (b, r2) = Math_random r1; y = b * 4000 - 2000;
             (c, r3) = Math_random r2; z = c * 4000 - 2000
         in scatterLoop (i + 1)
              (v\<lparr>targets := (targets v)\<lparr>scatter := scatter (targets v) @ [Vector3 x y z]\<rparr>,
                 rng := r3\<rparr>))
      else v)"
  by pat_completeness auto
termination
  by (relation "measure (\<lambda>(i, v). imageCount v - i)") (auto simp: Math_random_def)

function treeLoop :: "nat \<Rightarrow> real Visualizer \<Rightarrow> real Visualizer" where
  "treeLoop i v =
     (if i < imageCount v then
        (let phi = arccos (- 1 + (2 * real i) / real (imageCount v));
             theta = sqrt (real (imageCount v) * pi) * phi;
             r = 800;
             x = r * cos theta * sin phi;
             y = real i * 20 - 500;
             z = r * sin theta * sin phi
         in treeLoop (i + 1)
              (v\<lparr>targets := (targets v)\<lparr>tree := tree (targets v) @ [Vector3 x y z]\<rparr>\<rparr>))
      else v)"
  by pat_completeness auto
termination
  by (relation "measure (\<lambda>(i, v). imageCount v - i)") auto

function focusLoop :: "nat \<Rightarrow> real Visualizer \<Rightarrow> real Visualizer" where
  "focusLoop i v =
     (if i < imageCount v then
        (let theta = real i * 0.175 + pi;
             y = - (real_of_int \<lfloor>real i / 10\<rfloor> * 180) + 400;
             radius = 1200;
             x = cos theta * radius;
             z = sin theta * radius
         in focusLoop (i + 1)
              (v\<lparr>targets := (targets v)\<lparr>focus := focus (targets v) @ [Vector3 x y z]\<rparr>\<rparr>))
      else v)"
  by pat_completeness auto
termination
  by (relation "measure (\<lambda>(i, v). imageCount v - i)") auto

text \<open>
  The loop that creates the meshes. \<^verbatim>\<open>object.position.copy(p)\<close> reads
  \<^verbatim>\<open>p.x\<close>, so it throws when \<^verbatim>\<open>this.targets.scatter[i]\<close> is missing. A new
  mesh has the rotation \<open>(0, 0, 0)\<close>, of which the loop sets \<open>x\<close> and \<open>y\<close>.
\<close>

function meshLoop :: "nat \<Rightarrow> real Visualizer \<Rightarrow> (js_error \<times> real Visualizer) + real Visualizer" where
  "meshLoop i v =
     (if i < imageCount v then
        (case index (scatter (targets v)) i of None \<Rightarrow> Inl (TypeError, v)
         | Some p \<Rightarrow>
             (let (a, r1) = Math_random (rng v);
                  (b, r2) = Math_random r1;
                  object = \<lparr>position = p, rotation = Euler (a * pi) (b * pi) 0,
                            targetPosition = Some p, targetRotation = Euler 0 0 0\<rparr>
              in meshLoop (i + 1) (v\<lparr>meshes := meshes v @ [object], rng := r2\<rparr>)))
      else Inr v)"
  by pat_completeness auto
termination
  by (relation "measure (\<lambda>(i, v). imageCount v - i)") (auto simp: Math_random_def)

definition createObjects ::
  "real Visualizer \<Rightarrow> (js_error \<times> real Visualizer) + real Visualizer" where
  "createObjects v = meshLoop 0 (focusLoop 0 (treeLoop 0 (scatterLoop 0 v)))"

text \<open>
  \<^verbatim>\<open>transitionTo\<close>. The orientation that \<^verbatim>\<open>Object3D.lookAt\<close> gives an object
  at a position facing a point is computed by the three.js library; it is the parameter
  \<open>lookAt\<close>, a function of the position and of the point. In the look-at branch
  \<^verbatim>\<open>dummy.position.copy(targetSet[i])\<close> throws when the entry is missing, after
  \<^verbatim>\<open>targetPosition\<close> has been assigned.
\<close>

function transitionLoop ::
  "(real Vector3 \<Rightarrow> real Vector3 \<Rightarrow> real Euler) \<Rightarrow> real Vector3 list \<Rightarrow> bool \<Rightarrow> nat
     \<Rightarrow> real Visualizer \<Rightarrow> (js_error \<times> real Visualizer) + real Visualizer" where
  "transitionLoop lookAt targetSet lookAtCenter i v =
     (if i < length (meshes v) then
        (let m1 = (meshes v ! i)\<lparr>targetPosition := index targetSet i\<rparr>;
             v1 = v\<lparr>meshes := (meshes v)[i := m1]\<rparr>
         in if lookAtCenter then
              (case index targetSet i of None \<Rightarrow> Inl (TypeError, v1)
               | Some p \<Rightarrow>
                   (let targetRot = lookAt p (Vector3 0 0 2500)
                    in transitionLoop lookAt targetSet lookAtCenter (i + 1)
                         (v1\<lparr>meshes := (meshes v1)[i := m1\<lparr>targetRotation := targetRot\<rparr>]\<rparr>)))
            else
              (let (a, r1) = Math_random (rng v1);
                   (b, r2) = Math_random r1;
                   targetRot = Euler (a * pi) (b * pi) 0
               in transitionLoop lookAt targetSet lookAtCenter (i + 1)
                    (v1\<lparr>meshes := (meshes v1)[i := m1\<lparr>targetRotation := targetRot\<rparr>],
                        rng := r2\<rparr>)))
      else Inr v)"
  by pat_completeness auto
termination
  by (relation "measure (\<lambda>(lookAt, targetSet, lookAtCenter, i, v). length (meshes v) - i)")
    (auto simp: Math_random_def)

definition transitionTo ::
  "(real Vector3 \<Rightarrow> real Vector3 \<Rightarrow> real Euler) \<Rightarrow> GestureType \<Rightarrow> real Visualizer
     \<Rightarrow> (js_error \<times> real Visualizer) + real Visualizer" where
  "transitionTo lookAt gesture v =
     (if gesture = NONE then Inr v
      else
        (let (targetSet, lookAtCenter) =
               (if gesture = PINCH then (focus (targets v), True)
                else if gesture = FIST then (tree (targets v), True)
                else if gesture = OPEN_PALM then (scatter (targets v), False)
                else (scatter (targets v), False))
         in transitionLoop lookAt targetSet lookAtCenter 0 v))"

text \<open>
  The constructor's \<^verbatim>\<open>effect\<close>, which is how a gesture reaches
  \<^verbatim>\<open>transitionTo\<close>. The signal and the effect are Angular's. Setting a signal to
  the value it holds changes nothing; setting it to another value stores the value and
  marks the effects that read the signal as dirty. A dirty effect runs when the framework
  next flushes its effects, which it does after the callback that set the signal: the
  effect reads the signal and calls \<^verbatim>\<open>transitionTo\<close> with its value.
  \<open>activeGesture\<close> is the signal \<^verbatim>\<open>handService.currentGesture\<close> as the component
  sees it, and \<open>effectDirty\<close> tells whether the effect is due to run. An exception of
  \<^verbatim>\<open>transitionTo\<close> leaves the effect with the signal set and the effect no longer
  dirty.
\<close>

record Component =
  activeGesture :: GestureType
  effectDirty :: bool
  visualizer :: "real Visualizer"

text \<open>\<^verbatim>\<open>currentGesture.set(g)\<close>, as the component sees it.\<close>

definition signalSet :: "GestureType \<Rightarrow> Component \<Rightarrow> Component" where
  "signalSet g c =
     (if g = activeGesture c then c else c\<lparr>activeGesture := g, effectDirty := True\<rparr>)"

text \<open>The body of the effect.\<close>

definition effectBody ::
  "(real Vector3 \<Rightarrow> real Vector3 \<Rightarrow> real Euler) \<Rightarrow> Component
     \<Rightarrow> (js_error \<times> Component) + Component" where
  "effectBody lookAt c =
     (let gesture = activeGesture c
      in case transitionTo lookAt gesture (visualizer c) of
           Inl (e, v) \<Rightarrow> Inl (e, c\<lparr>visualizer := v\<rparr>)
         | Inr v \<Rightarrow> Inr (c\<lparr>visualizer := v\<rparr>))"

definition flushEffects ::
  "(real Vector3 \<Rightarrow> real Vector3 \<Rightarrow> real Euler) \<Rightarrow> Component
     \<Rightarrow> (js_error \<times> Component) + Component" where
  "flushEffects lookAt c =
     (if effectDirty c then effectBody lookAt (c\<lparr>effectDirty := False\<rparr>) else Inr c)"

text \<open>
  What a gesture that the service emits does to the component: the signal is set, and
  the effects are flushed.
\<close>

definition processGesture ::
  "(real Vector3 \<Rightarrow> real Vector3 \<Rightarrow> real Euler) \<Rightarrow> GestureType \<Rightarrow> Component
     \<Rightarrow> (js_error \<times> Component) + Component" where
  "processGesture lookAt g c = flushEffects lookAt (signalSet g c)"

definition componentState :: "(js_error \<times> Component) + Component \<Rightarrow> Component" where
  "componentState r = (case r of Inl (e, c) \<Rightarrow> c | Inr c \<Rightarrow> c)"

text \<open>
  \<^verbatim>\<open>Vector3.lerp(v, alpha)\<close> of three.js is
  \<^verbatim>\<open>this.x += (v.x - this.x) * alpha\<close> on each coordinate, as the three assignments to
  the rotation in \<^verbatim>\<open>animate\<close> are; it reads \<^verbatim>\<open>v.x\<close>, so it throws when the target
  is \<^verbatim>\<open>undefined\<close>.
\<close>

definition lerp :: "'n Arithmetic \<Rightarrow> 'n Vector3 \<Rightarrow> 'n Vector3 \<Rightarrow> 'n \<Rightarrow> 'n Vector3" where
  "lerp ar this v alpha =
     Vector3 (add ar (vx this) (mul ar (sub ar (vx v) (vx this)) alpha))
             (add ar (vy this) (mul ar (sub ar (vy v) (vy this)) alpha))
             (add ar (vz this) (mul ar (sub ar (vz v) (vz this)) alpha))"

function animateLoop ::
  "'n Arithmetic \<Rightarrow> 'n \<Rightarrow> nat \<Rightarrow> 'n Visualizer \<Rightarrow> (js_error \<times> 'n Visualizer) + 'n Visualizer" where
  "animateLoop ar delta i v =
     (if i < length (meshes v) then
        (let object = meshes v ! i;
             targetRot = targetRotation object
         in case targetPosition object of None \<Rightarrow> Inl (TypeError, v)
            | Some targetPos \<Rightarrow>
                (let p = lerp ar (position object) targetPos delta;
                     rot = rotation object;
                     rx = add ar (ex rot) (mul ar (sub ar (ex targetRot) (ex rot)) delta);
                     ry = add ar (ey rot) (mul ar (sub ar (ey targetRot) (ey rot)) delta);
                     rz = add ar (ez rot) (mul ar (sub ar (ez targetRot) (ez rot)) delta)
                 in animateLoop ar delta (i + 1)
                      (v\<lparr>meshes := (meshes v)[i := object\<lparr>position := p,
                                                            rotation := Euler rx ry rz\<rparr>]\<rparr>)))
      else Inr v)"
  by pat_completeness auto
termination
  by (relation "measure (\<lambda>(ar, delta, i, v). length (meshes v) - i)") auto





subsection \<open>Concrete component states\<close>

text \<open>
  A random source whose numbers \<open>1/2, 1/3, 1/4, \<dots>\<close> are all different, a function
  standing for \<^verbatim>\<open>lookAt\<close> (the theorems hold for every such function), and a
  component with two meshes and three formations of two points (the first mesh is on its
  way to the origin).
\<close>

definition demoRandom :: RandomSource where
  "demoRandom = \<lparr>draws = (\<lambda>k. 1 / (real k + 2)), used = 0\<rparr>"

definition demoLookAt :: "real Vector3 \<Rightarrow> real Vector3 \<Rightarrow> real Euler" where
  "demoLookAt p c = Euler (vx c - vx p) (vy c - vy p) (vz c - vz p)"

definition demoVisualizer :: "real Visualizer" where
  "demoVisualizer =
     \<lparr>meshes =
        [\<lparr>position = Vector3 100 (- 40) 0, rotation = Euler 2 0 1,
          targetPosition = Some (Vector3 0 0 0), targetRotation = Euler 0 0 0\<rparr>,
         \<lparr>position = Vector3 0 0 0, rotation = Euler 0 0 0,
          targetPosition = Some (Vector3 10 20 30), targetRotation = Euler 1 1 0\<rparr>],
      imageCount = 2,
      targets =
        \<lparr>scatter = [Vector3 10 20 30, Vector3 (- 10) 0 5],
         tree = [Vector3 0 (- 500) 0, Vector3 100 (- 480) 200],
         focus = [Vector3 (- 1200) 400 0, Vector3 (- 1100) 400 (- 200)]\<rparr>,
      rng = demoRandom\<rparr>"

text \<open>
  The component after one transition to \<open>OPEN_PALM\<close>.
\<close>

definition demoOnce :: "real Visualizer" where
  "demoOnce =
     \<lparr>meshes =
        [\<lparr>position = Vector3 100 (- 40) 0, rotation = Euler 2 0 1,
          targetPosition = Some (Vector3 10 20 30),
          targetRotation = Euler (1 / 2 * pi) (1 / 3 * pi) 0\<rparr>,
         \<lparr>position = Vector3 0 0 0, rotation = Euler 0 0 0,
          targetPosition = Some (Vector3 (- 10) 0 5),
          targetRotation = Euler (1 / 4 * pi) (1 / 5 * pi) 0\<rparr>],
      imageCount = 2,
      targets =
        \<lparr>scatter = [Vector3 10 20 30, Vector3 (- 10) 0 5],
         tree = [Vector3 0 (- 500) 0, Vector3 100 (- 480) 200],
         focus = [Vector3 (- 1200) 400 0, Vector3 (- 1100) 400 (- 200)]\<rparr>,
      rng = \<lparr>draws = (\<lambda>k. 1 / (real k + 2)), used = 4\<rparr>\<rparr>"

text \<open>
  The component that holds the first of these states, before any gesture has been seen.
\<close>

definition demoComponent :: Component where
  "demoComponent = \<lparr>activeGesture = NONE, effectDirty = False, visualizer = demoVisualizer\<rparr>"

subsection \<open>The points of the formations\<close>

text \<open>
  The point that the loop for the tree computes at index \<open>i\<close> when the component has \<open>n\<close>
  images, the point that the loop for the focus computes, and the cube of side 4000
  centred at the origin.
\<close>

definition treePoint :: "nat \<Rightarrow> nat \<Rightarrow> real Vector3" where
  "treePoint n i =
     (let phi = arccos (- 1 + (2 * real i) / real n);
          theta = sqrt (real n * pi) * phi;
          r = 800;
          x = r * cos theta * sin phi;
          y = real i * 20 - 500;
          z = r * sin theta * sin phi
      in Vector3 x y z)"

definition focusPoint :: "nat \<Rightarrow> real Vector3" where
  "focusPoint i =
     (let theta = real i * 0.175 + pi;
          y = - (real_of_int \<lfloor>real i / 10\<rfloor> * 180) + 400;
          radius = 1200;
          x = cos theta * radius;
          z = sin theta * radius
      in Vector3 x y z)"

definition inCube :: "real Vector3 \<Rightarrow> bool" where
  "inCube p =
     (- 2000 \<le> vx p \<and> vx p \<le> 2000 \<and> - 2000 \<le> vy p \<and> vy p \<le> 2000
      \<and> - 2000 \<le> vz p \<and> vz p \<le> 2000)"

subsection \<open>IEEE 754 double precision\<close>

text \<open>
  Rounding a real to the nearest double, ties to even: the exponent of the binade (at least
  \<open>-1022\<close>, where the subnormal numbers begin), the spacing of the doubles of that binade,
  and the nearest multiple of the spacing.
\<close>

definition exponent :: "real \<Rightarrow> int" where
  "exponent z = max \<lfloor>log 2 \<bar>z\<bar>\<rfloor> (- 1022)"

definition quantum :: "real \<Rightarrow> real" where
  "quantum z = 2 powi (exponent z - 52)"

definition roundHalfEven :: "real \<Rightarrow> int" where
  "roundHalfEven r =
     (let n = \<lfloor>r\<rfloor>; d = r - of_int n
      in if d < 1 / 2 then n else if 1 / 2 < d then n + 1 else if even n then n else n + 1)"

definition rnd :: "real \<Rightarrow> real" where
  "rnd z = (if z = 0 then 0 else of_int (roundHalfEven (z / quantum z)) * quantum z)"

text \<open>
  A Number is a finite double, an infinity or NaN. \<open>Finite z\<close> stands for the double whose
  value is \<open>z\<close>; the two zeros are one Number here (the program divides by no computed
  Number and takes no sign, so it cannot tell them apart). \<open>toNumber z\<close> is the Number that
  an operation with the exact result \<open>z\<close> returns: the rounded result, or an infinity when
  that is out of range.
\<close>

datatype Number = Finite real | PlusInfinity | MinusInfinity | NaN

definition toNumber :: "real \<Rightarrow> Number" where
  "toNumber z =
     (let r = rnd z
      in if 2 ^ 1024 \<le> r then PlusInfinity
         else if r \<le> - (2 ^ 1024) then MinusInfinity
         else Finite r)"

fun negate64 :: "Number \<Rightarrow> Number" where
  "negate64 (Finite a) = Finite (- a)"
| "negate64 PlusInfinity = MinusInfinity"
| "negate64 MinusInfinity = PlusInfinity"
| "negate64 NaN = NaN"

fun plus64 :: "Number \<Rightarrow> Number \<Rightarrow> Number" where
  "plus64 (Finite a) (Finite b) = toNumber (a + b)"
| "plus64 NaN y = NaN"
| "plus64 x NaN = NaN"
| "plus64 PlusInfinity MinusInfinity = NaN"
| "plus64 MinusInfinity PlusInfinity = NaN"
| "plus64 PlusInfinity y = PlusInfinity"
| "plus64 x PlusInfinity = PlusInfinity"
| "plus64 MinusInfinity y = MinusInfinity"
| "plus64 x MinusInfinity = MinusInfinity"

definition minus64 :: "Number \<Rightarrow> Number \<Rightarrow> Number" where
  "minus64 x y = plus64 x (negate64 y)"

fun times64 :: "Number \<Rightarrow> Number \<Rightarrow> Number" where
  "times64 (Finite a) (Finite b) = toNumber (a * b)"
| "times64 NaN y = NaN"
| "times64 x NaN = NaN"
| "times64 (Finite a) y = (if a = 0 then NaN else if 0 < a then y else negate64 y)"
| "times64 x (Finite b) = (if b = 0 then NaN else if 0 < b then x else negate64 x)"
| "times64 x y = (if x = y then PlusInfinity else MinusInfinity)"

fun half64 :: "Number \<Rightarrow> Number" where
  "half64 (Finite a) = toNumber (a / 2)"
| "half64 x = x"

text \<open>
  \<^verbatim>\<open>Math.pow(x, 2)\<close> is the rounded product \<open>x * x\<close> (the special case of the exponent 2 in
  the \<^verbatim>\<open>pow\<close> of the engines), and \<^verbatim>\<open>Math.sqrt\<close> is the rounded square root of
  IEEE 754.
\<close>

fun pow2_64 :: "Number \<Rightarrow> Number" where
  "pow2_64 (Finite a) = toNumber (a * a)"
| "pow2_64 NaN = NaN"
| "pow2_64 x = PlusInfinity"

fun sqrt64 :: "Number \<Rightarrow> Number" where
  "sqrt64 (Finite a) = (if a < 0 then NaN else toNumber (sqrt a))"
| "sqrt64 PlusInfinity = PlusInfinity"
| "sqrt64 x = NaN"

fun less64 :: "Number \<Rightarrow> Number \<Rightarrow> bool" where
  "less64 (Finite a) (Finite b) = (a < b)"
| "less64 NaN y = False"
| "less64 x NaN = False"
| "less64 PlusInfinity y = False"
| "less64 x MinusInfinity = False"
| "less64 MinusInfinity y = True"
| "less64 x PlusInfinity = True"

definition binary64 :: "Number Arithmetic" where
  "binary64 =
     \<lparr>sub = minus64, add = plus64, mul = times64, half = half64, pow2 = pow2_64,
      Math_sqrt = sqrt64, lt = less64, c005 = toNumber 0.05\<rparr>"

subsection \<open>Frames used as concrete inputs\<close>

text \<open>
  Frames are written with the exact values of their coordinates, all of them doubles;
  \<open>numbers\<close> turns such a frame into the frame of Numbers that the classifier receives.
  \<open>euclid\<close> is the planar Euclidean distance of two landmarks and \<open>curled\<close> the test
  "tip nearer to the wrist than the pip joint", both in exact arithmetic. \<open>doubleFrame\<close>
  says that every coordinate of a frame is a double.
\<close>

definition numbers :: "real NormalizedLandmark list \<Rightarrow> Number NormalizedLandmark list" where
  "numbers ls = map (\<lambda>p. Landmark (Finite (lx p)) (Finite (ly p)) (Finite (lz p))) ls"

definition euclid :: "real NormalizedLandmark \<Rightarrow> real NormalizedLandmark \<Rightarrow> real" where
  "euclid a b = sqrt ((lx a - lx b) ^ 2 + (ly a - ly b) ^ 2)"

definition curled :: "real NormalizedLandmark list \<Rightarrow> nat \<Rightarrow> nat \<Rightarrow> bool" where
  "curled ls tipIdx pipIdx = (euclid (ls ! tipIdx) (ls ! 0) < euclid (ls ! pipIdx) (ls ! 0))"

definition doubleFrame :: "real NormalizedLandmark list \<Rightarrow> bool" where
  "doubleFrame ls = list_all (\<lambda>p. rnd (lx p) = lx p \<and> rnd (ly p) = ly p \<and> rnd (lz p) = lz p) ls"

text \<open>
  A hand with the wrist at \<open>(1/2, 7/8)\<close>, the four fingers stretched out, and the thumb tip
  \<open>1/32\<close> from the index tip.
\<close>

definition pinchFrame :: "real NormalizedLandmark list" where
  "pinchFrame =
     [Landmark (1 / 2) (7 / 8) 0,
      Landmark (3 / 8) (13 / 16) 0, Landmark (5 / 16) (3 / 4) 0, Landmark (1 / 4) (1 / 2) 0,
      Landmark (5 / 32) (3 / 8) 0,
      Landmark (3 / 8) (11 / 16) 0, Landmark (5 / 16) (5 / 8) 0, Landmark (1 / 4) (1 / 2) 0,
      Landmark (1 / 8) (3 / 8) 0,
      Landmark (1 / 2) (11 / 16) 0, Landmark (1 / 2) (5 / 8) 0, Landmark (1 / 2) (1 / 2) 0,
      Landmark (1 / 2) (3 / 8) 0,
      Landmark (5 / 8) (11 / 16) 0, Landmark (11 / 16) (5 / 8) 0, Landmark (3 / 4) (1 / 2) 0,
      Landmark (7 / 8) (3 / 8) 0,
      Landmark (11 / 16) (3 / 4) 0, Landmark (3 / 4) (11 / 16) 0, Landmark (13 / 16) (5 / 8) 0,
      Landmark (7 / 8) (19 / 32) 0]"

text \<open>
  The same hand with the thumb tip \<open>5/16\<close> from the index tip and the index finger curled
  (its tip \<open>5/32\<close> from the wrist, its pip joint \<open>5/16\<close>).
\<close>

definition ambiguousFrame :: "real NormalizedLandmark list" where
  "ambiguousFrame =
     [Landmark (1 / 2) (7 / 8) 0,
      Landmark (3 / 8) (13 / 16) 0, Landmark (5 / 16) (3 / 4) 0, Landmark (1 / 4) (5 / 8) 0,
      Landmark (7 / 32) (1 / 2) 0,
      Landmark (3 / 8) (11 / 16) 0, Landmark (5 / 16) (5 / 8) 0, Landmark (3 / 8) (5 / 8) 0,
      Landmark (13 / 32) (3 / 4) 0,
      Landmark (1 / 2) (11 / 16) 0, Landmark (1 / 2) (5 / 8) 0, Landmark (1 / 2) (1 / 2) 0,
      Landmark (1 / 2) (3 / 8) 0,
      Landmark (5 / 8) (11 / 16) 0, Landmark (11 / 16) (5 / 8) 0, Landmark (3 / 4) (1 / 2) 0,
      Landmark (7 / 8) (3 / 8) 0,
      Landmark (11 / 16) (3 / 4) 0, Landmark (3 / 4) (11 / 16) 0, Landmark (13 / 16) (5 / 8) 0,
      Landmark (7 / 8) (19 / 32) 0]"

text \<open>
  The hand of the first frame with the thumb tip at \<open>(0.25, 0.5)\<close> and the index tip at the
  doubles nearest to \<open>(0.2999479858829811, 0.5022800671554847)\<close>: in exact arithmetic the
  two tips are less than \<open>0.05\<close> apart.
\<close>

definition boundaryFrame :: "real NormalizedLandmark list" where
  "boundaryFrame =
     [Landmark (1 / 2) (7 / 8) 0,
      Landmark (3 / 8) (13 / 16) 0, Landmark (5 / 16) (3 / 4) 0, Landmark (1 / 4) (1 / 2) 0,
      Landmark (1 / 4) (1 / 2) 0,
      Landmark (3 / 8) (11 / 16) 0, Landmark (5 / 16) (5 / 8) 0, Landmark (1 / 4) (1 / 2) 0,
      Landmark (2701691274906249 / 9007199254740992) (4524136646554137 / 9007199254740992) 0,
      Landmark (1 / 2) (11 / 16) 0, Landmark (1 / 2) (5 / 8) 0, Landmark (1 / 2) (1 / 2) 0,
      Landmark (1 / 2) (3 / 8) 0,
      Landmark (5 / 8) (11 / 16) 0, Landmark (11 / 16) (5 / 8) 0, Landmark (3 / 4) (1 / 2) 0,
      Landmark (7 / 8) (3 / 8) 0,
      Landmark (11 / 16) (3 / 4) 0, Landmark (3 / 4) (11 / 16) 0, Landmark (13 / 16) (5 / 8) 0,
      Landmark (7 / 8) (19 / 32) 0]"

text \<open>The first nine landmarks of the first two frames.\<close>

definition shortPinchFrame :: "real NormalizedLandmark list" where
  "shortPinchFrame = take 9 pinchFrame"

definition shortFrame :: "real NormalizedLandmark list" where
  "shortFrame = take 9 ambiguousFrame"

subsection \<open>Distances to the target, and two components in motion\<close>


definition gap :: "Number \<Rightarrow> Number \<Rightarrow> real" where
  "gap a b = (case a of Finite x \<Rightarrow> (case b of Finite y \<Rightarrow> \<bar>x - y\<bar> | _ \<Rightarrow> 0) | _ \<Rightarrow> 0)"










section \<open>Rounding to the nearest double\<close>

text \<open>Rounding half to even picks an integer nearest to its argument.\<close>

lemma roundHalfEven_minimal:
  "\<bar>of_int (roundHalfEven r) - r\<bar> \<le> \<bar>of_int j - r\<bar>"
proof -
  let ?n = "\<lfloor>r\<rfloor>"
  let ?d = "r - of_int ?n"
  have d: "0 \<le> ?d" "?d < 1" by linarith+
  have far: "min ?d (1 - ?d) \<le> \<bar>of_int j - r\<bar>"
  proof (cases "j \<le> ?n")
    case True
    then have "of_int j \<le> (of_int ?n :: real)" by simp
    then show ?thesis by linarith
  next
    case False
    then have "?n + 1 \<le> j" by simp
    then have "(of_int ?n :: real) + 1 \<le> of_int j" by linarith
    then show ?thesis by linarith
  qed
  have "\<bar>of_int (roundHalfEven r) - r\<bar> \<le> min ?d (1 - ?d)"
    unfolding roundHalfEven_def Let_def using d by (auto simp: min_def)
  with far show ?thesis by linarith
qed

lemma roundHalfEven_eqI:
  assumes "\<bar>r - of_int n\<bar> < 1 / 2"
  shows "roundHalfEven r = n"
proof -
  have "\<bar>of_int (roundHalfEven r) - r\<bar> \<le> \<bar>of_int n - r\<bar>" by (rule roundHalfEven_minimal)
  with assms have "\<bar>(of_int (roundHalfEven r) :: real) - of_int n\<bar> < 1" by linarith
  then have "\<bar>roundHalfEven r - n\<bar> < 1"
    by (metis of_int_1 of_int_abs of_int_diff of_int_less_iff)
  then show ?thesis by linarith
qed

lemma roundHalfEven_of_int [simp]: "roundHalfEven (of_int n) = n"
  by (rule roundHalfEven_eqI) simp

lemma two_powr_int: "2 powr real_of_int e = (2::real) powi e"
  by (rule powr_real_of_int') simp_all

lemma floor_log2_bounds:
  assumes "z \<noteq> 0"
  shows "2 powi \<lfloor>log 2 \<bar>z\<bar>\<rfloor> \<le> \<bar>z\<bar>" and "\<bar>z\<bar> < 2 powi (\<lfloor>log 2 \<bar>z\<bar>\<rfloor> + 1)"
proof -
  let ?L = "\<lfloor>log 2 \<bar>z\<bar>\<rfloor>"
  have pos: "0 < \<bar>z\<bar>" using assms by simp
  have "real_of_int ?L \<le> log 2 \<bar>z\<bar>" by simp
  then have "2 powr real_of_int ?L \<le> \<bar>z\<bar>"
    using le_log_iff [of 2 "\<bar>z\<bar>" "real_of_int ?L"] pos by simp
  then show "2 powi ?L \<le> \<bar>z\<bar>" by (simp only: two_powr_int)
  have "\<not> real_of_int (?L + 1) \<le> log 2 \<bar>z\<bar>" by linarith
  then have "\<not> 2 powr real_of_int (?L + 1) \<le> \<bar>z\<bar>"
    using le_log_iff [of 2 "\<bar>z\<bar>" "real_of_int (?L + 1)"] pos by simp
  then show "\<bar>z\<bar> < 2 powi (?L + 1)" by (simp only: two_powr_int not_le)
qed

lemma floor_log2_eqI:
  assumes "2 powi e \<le> \<bar>z\<bar>" and "\<bar>z\<bar> < 2 powi (e + 1)"
  shows "\<lfloor>log 2 \<bar>z\<bar>\<rfloor> = e"
proof -
  have "(0::real) < 2 powi e" by simp
  with assms(1) have pos: "0 < \<bar>z\<bar>" by linarith
  have "2 powr real_of_int e \<le> \<bar>z\<bar>" using assms(1) by (simp only: two_powr_int)
  then have a: "real_of_int e \<le> log 2 \<bar>z\<bar>"
    using le_log_iff [of 2 "\<bar>z\<bar>" "real_of_int e"] pos by simp
  have "\<not> 2 powr real_of_int (e + 1) \<le> \<bar>z\<bar>" using assms(2) by (simp only: two_powr_int not_le)
  then have b: "log 2 \<bar>z\<bar> < real_of_int (e + 1)"
    using le_log_iff [of 2 "\<bar>z\<bar>" "real_of_int (e + 1)"] pos by simp
  from a b show ?thesis by (simp add: floor_eq_iff)
qed

lemma exponent_ge: "- 1022 \<le> exponent z"
  by (simp add: exponent_def)

lemma exponent_upper:
  assumes "z \<noteq> 0"
  shows "\<bar>z\<bar> < 2 powi (exponent z + 1)"
proof -
  have "\<lfloor>log 2 \<bar>z\<bar>\<rfloor> + 1 \<le> exponent z + 1" by (simp add: exponent_def)
  then have "(2::real) powi (\<lfloor>log 2 \<bar>z\<bar>\<rfloor> + 1) \<le> 2 powi (exponent z + 1)"
    by (intro power_int_increasing) simp_all
  with floor_log2_bounds(2) [OF assms] show ?thesis by linarith
qed

lemma exponent_lower:
  assumes "z \<noteq> 0" and "- 1022 < exponent z"
  shows "2 powi exponent z \<le> \<bar>z\<bar>"
proof -
  from assms(2) have "exponent z = \<lfloor>log 2 \<bar>z\<bar>\<rfloor>" by (simp add: exponent_def max_def split: if_splits)
  with floor_log2_bounds(1) [OF assms(1)] show ?thesis by simp
qed

lemma exponent_eqI:
  assumes "2 powi e \<le> \<bar>z\<bar>" and "\<bar>z\<bar> < 2 powi (e + 1)" and "- 1022 \<le> e"
  shows "exponent z = e"
  using assms(3) by (simp add: exponent_def floor_log2_eqI [OF assms(1,2)])

lemma exponent_subnormal:
  assumes "z \<noteq> 0" and "\<bar>z\<bar> < 2 powi (- 1022)"
  shows "exponent z = - 1022"
proof (rule ccontr)
  assume "exponent z \<noteq> - 1022"
  with exponent_ge [of z] have e: "- 1022 < exponent z" by linarith
  then have "(2::real) powi (- 1022) \<le> 2 powi exponent z"
    by (intro power_int_increasing) simp_all
  with exponent_lower [OF assms(1) e] assms(2) show False by linarith
qed

lemma quantum_pos: "0 < quantum z"
  by (simp add: quantum_def)

lemma rnd_0 [simp]: "rnd 0 = 0"
  by (simp add: rnd_def)

text \<open>A multiple of a quantum is a multiple of every finer quantum.\<close>

lemma multiple_finer:
  assumes "e \<le> e'"
  shows "\<exists>j. of_int n * (2::real) powi (e' - 52) = of_int j * 2 powi (e - 52)"
proof -
  have "(2::real) powi (e' - 52) = 2 powi (e' - e) * 2 powi (e - 52)"
    by (simp add: power_int_add [symmetric])
  moreover have "(2::real) powi (e' - e) = of_int (2 ^ nat (e' - e))"
    using assms by (simp add: power_int_def)
  ultimately have "of_int n * (2::real) powi (e' - 52) = of_int (n * 2 ^ nat (e' - e)) * 2 powi (e - 52)"
    by simp
  then show ?thesis by blast
qed

lemma rnd_multiple:
  assumes "z \<noteq> 0"
  shows "\<bar>rnd z - z\<bar> \<le> \<bar>of_int j * quantum z - z\<bar>"
proof -
  let ?q = "quantum z"
  have q: "0 < ?q" by (rule quantum_pos)
  have "\<bar>of_int (roundHalfEven (z / ?q)) - z / ?q\<bar> \<le> \<bar>of_int j - z / ?q\<bar>"
    by (rule roundHalfEven_minimal)
  then have "\<bar>of_int (roundHalfEven (z / ?q)) - z / ?q\<bar> * ?q \<le> \<bar>of_int j - z / ?q\<bar> * ?q"
    using q by (simp add: mult_right_mono)
  moreover have "\<bar>of_int i - z / ?q\<bar> * ?q = \<bar>of_int i * ?q - z\<bar>" for i :: int
  proof -
    have "\<bar>of_int i - z / ?q\<bar> * ?q = \<bar>(of_int i - z / ?q) * ?q\<bar>"
      using q by (simp add: abs_mult)
    also have "(of_int i - z / ?q) * ?q = of_int i * ?q - z"
      using q by (simp add: algebra_simps)
    finally show ?thesis .
  qed
  ultimately show ?thesis using assms by (simp add: rnd_def)
qed

lemma rnd_eqI:
  assumes "2 powi e \<le> \<bar>z\<bar>" and "\<bar>z\<bar> < 2 powi (e + 1)" and "- 1022 \<le> e"
    and "\<bar>z - of_int n * 2 powi (e - 52)\<bar> < 2 powi (e - 53)"
  shows "rnd z = of_int n * 2 powi (e - 52)"
proof -
  have "(0::real) < 2 powi e" by simp
  with assms(1) have "0 < \<bar>z\<bar>" by linarith
  then have z: "z \<noteq> 0" by simp
  have e: "exponent z = e" by (rule exponent_eqI [OF assms(1-3)])
  let ?q = "(2::real) powi (e - 52)"
  have q: "0 < ?q" by simp
  have h: "(2::real) powi (e - 53) = ?q / 2"
    by (simp add: power_int_diff)
  have "\<bar>z / ?q - of_int n\<bar> = \<bar>(z - of_int n * ?q) / ?q\<bar>"
    using q by (simp add: field_simps)
  also have "\<dots> = \<bar>z - of_int n * ?q\<bar> / ?q" using q by (simp add: abs_divide)
  also have "\<dots> < 1 / 2" using assms(4) q unfolding h by (simp add: field_simps)
  finally have "roundHalfEven (z / ?q) = n" by (rule roundHalfEven_eqI)
  then show ?thesis using z by (simp add: rnd_def quantum_def e)
qed

lemma rnd_exact:
  assumes "2 powi e \<le> \<bar>z\<bar>" and "\<bar>z\<bar> < 2 powi (e + 1)" and "- 1022 \<le> e"
    and "z = of_int n * 2 powi (e - 52)"
  shows "rnd z = z"
  using rnd_eqI [OF assms(1-3), of n] assms(4) by simp

text \<open>The doubles are the fixed points of the rounding.\<close>

lemma double_multiple:
  assumes "rnd f = f"
  shows "\<exists>n. f = of_int n * quantum f"
proof (cases "f = 0")
  case True
  then show ?thesis by (intro exI [of _ 0]) simp
next
  case False
  with assms show ?thesis by (metis rnd_def)
qed

lemma rnd_nearest:
  assumes "rnd f = f"
  shows "\<bar>rnd z - z\<bar> \<le> \<bar>f - z\<bar>"
proof (cases "z = 0")
  case True
  then show ?thesis by simp
next
  case z: False
  let ?e = "exponent z"
  show ?thesis
  proof (cases "f = 0")
    case True
    with rnd_multiple [OF z, of 0] show ?thesis by simp
  next
    case f: False
    from double_multiple [OF assms] obtain n where n: "f = of_int n * quantum f" by blast
    show ?thesis
    proof (cases "?e \<le> exponent f")
      case True
      from multiple_finer [OF True, of n] n obtain j where "f = of_int j * quantum z"
        by (auto simp: quantum_def)
      with rnd_multiple [OF z, of j] show ?thesis by simp
    next
      case False
      then have lt: "exponent f + 1 \<le> ?e" by simp
      with exponent_ge [of f] have norm: "- 1022 < ?e" by linarith
      have "\<bar>f\<bar> < 2 powi (exponent f + 1)" by (rule exponent_upper [OF f])
      also have "\<dots> \<le> 2 powi ?e" using lt by (intro power_int_increasing) simp_all
      finally have small: "\<bar>f\<bar> < 2 powi ?e" .
      have big: "2 powi ?e \<le> \<bar>z\<bar>" by (rule exponent_lower [OF z norm])
      have unit: "(2::real) powi ?e = of_int (2 ^ 52) * quantum z"
        by (simp add: quantum_def power_int_diff)
      show ?thesis
      proof (cases "0 < z")
        case True
        have "\<bar>rnd z - z\<bar> \<le> \<bar>of_int (2 ^ 52) * quantum z - z\<bar>" by (rule rnd_multiple [OF z])
        also have "\<dots> = z - 2 powi ?e" using big True unfolding unit [symmetric] by simp
        also have "\<dots> \<le> \<bar>f - z\<bar>" using small big True by linarith
        finally show ?thesis .
      next
        case False
        with z have neg: "z < 0" by simp
        have "\<bar>rnd z - z\<bar> \<le> \<bar>of_int (- (2 ^ 52)) * quantum z - z\<bar>" by (rule rnd_multiple [OF z])
        also have "of_int (- (2 ^ 52)) * quantum z = - (2 powi ?e)" unfolding unit by simp
        also have "\<bar>- (2 powi ?e) - z\<bar> = - z - 2 powi ?e" using big neg by simp
        also have "\<dots> \<le> \<bar>f - z\<bar>" using small big neg by linarith
        finally show ?thesis .
      qed
    qed
  qed
qed

lemma rnd_above:
  assumes "rnd f = f" and "f \<le> z"
  shows "f \<le> rnd z"
  using rnd_nearest [OF assms(1), of z] assms(2) by linarith

lemma rnd_below:
  assumes "rnd f = f" and "z \<le> f"
  shows "rnd z \<le> f"
  using rnd_nearest [OF assms(1), of z] assms(2) by linarith

lemma rnd_power_of_two:
  assumes "- 1022 \<le> e"
  shows "rnd (2 powi e) = 2 powi e" and "rnd (- (2 powi e)) = - (2 powi e)"
proof -
  have u: "(2::real) powi e = of_int (2 ^ 52) * 2 powi (e - 52)"
    by (simp add: power_int_diff)
  have lt: "(2::real) powi e < 2 powi (e + 1)"
    by (intro power_int_strict_increasing) simp_all
  show "rnd (2 powi e) = 2 powi e"
    by (rule rnd_exact [where e = e and n = "2 ^ 52"]) (use lt assms u in simp_all)
  have "- ((2::real) powi e) = of_int (- (2 ^ 52)) * 2 powi (e - 52)"
    using u by simp
  then show "rnd (- (2 powi e)) = - (2 powi e)"
    by (intro rnd_exact [where e = e and n = "- (2 ^ 52)"]) (use lt assms in simp_all)
qed

lemma rnd_fix_multiple:
  assumes "v = of_int n * 2 powi (e - 52)" and "- 1022 \<le> e"
    and "\<bar>v\<bar> \<le> 2 powi (e + 1)" and "2 powi e \<le> \<bar>v\<bar> \<or> e = - 1022"
  shows "rnd v = v"
proof -
  consider "v = 0" | "\<bar>v\<bar> = 2 powi (e + 1)"
    | "2 powi e \<le> \<bar>v\<bar>" "\<bar>v\<bar> < 2 powi (e + 1)"
    | "v \<noteq> 0" "\<bar>v\<bar> < 2 powi e" "e = - 1022"
    using assms(3,4) by fastforce
  then show ?thesis
  proof cases
    case 1
    then show ?thesis by simp
  next
    case 2
    then have "v = 2 powi (e + 1) \<or> v = - (2 powi (e + 1))" by linarith
    with rnd_power_of_two [of "e + 1"] assms(2) show ?thesis by auto
  next
    case 3
    then show ?thesis by (rule rnd_exact [OF _ _ assms(2) assms(1)])
  next
    case 4
    then have "exponent v = - 1022" by (intro exponent_subnormal) simp_all
    then have "quantum v = 2 powi (e - 52)" using 4(3) by (simp add: quantum_def)
    then show ?thesis using 4(1) assms(1) by (simp add: rnd_def)
  qed
qed

lemma rnd_idem [simp]: "rnd (rnd z) = rnd z"
proof (cases "z = 0")
  case True
  then show ?thesis by simp
next
  case z: False
  let ?e = "exponent z"
  have e: "- 1022 \<le> ?e" by (rule exponent_ge)
  then have e1: "- 1022 \<le> ?e + 1" by simp
  have v: "rnd z = of_int (roundHalfEven (z / quantum z)) * 2 powi (?e - 52)"
    using z by (simp add: rnd_def quantum_def)
  have up: "\<bar>z\<bar> < 2 powi (?e + 1)" by (rule exponent_upper [OF z])
  have "rnd z \<le> 2 powi (?e + 1)"
    using up by (intro rnd_below rnd_power_of_two(1) [OF e1]) simp
  moreover have "- (2 powi (?e + 1)) \<le> rnd z"
    using up by (intro rnd_above rnd_power_of_two(2) [OF e1]) simp
  ultimately have le: "\<bar>rnd z\<bar> \<le> 2 powi (?e + 1)" by simp
  have "2 powi ?e \<le> \<bar>rnd z\<bar> \<or> ?e = - 1022"
  proof (cases "?e = - 1022")
    case True
    then show ?thesis by simp
  next
    case False
    with e have "- 1022 < ?e" by simp
    from exponent_lower [OF z this] have big: "2 powi ?e \<le> \<bar>z\<bar>" .
    show ?thesis
    proof (cases "0 < z")
      case True
      with big have "2 powi ?e \<le> rnd z"
        by (intro rnd_above rnd_power_of_two(1) [OF e]) simp
      then have "2 powi ?e \<le> \<bar>rnd z\<bar>" by linarith
      then show ?thesis ..
    next
      case False
      with big have "rnd z \<le> - (2 powi ?e)"
        by (intro rnd_below rnd_power_of_two(2) [OF e]) simp
      then have "2 powi ?e \<le> \<bar>rnd z\<bar>" by linarith
      then show ?thesis ..
    qed
  qed
  with rnd_fix_multiple [OF v e le] show ?thesis by simp
qed

lemma rnd_scaled_int:
  assumes "\<bar>a\<bar> < 2 ^ 53" and "- 1074 \<le> k"
  shows "rnd (of_int a * 2 powi k) = of_int a * 2 powi k"
proof (cases "a = 0")
  case True
  then show ?thesis by simp
next
  case False
  let ?z = "of_int a * (2::real) powi k"
  let ?e = "exponent ?z"
  have z: "?z \<noteq> 0" using False by simp
  have abs: "\<bar>?z\<bar> = of_int \<bar>a\<bar> * 2 powi k" by (simp add: abs_mult)
  have "of_int \<bar>a\<bar> < (2::real) ^ 53" using assms(1) by (metis of_int_less_iff of_int_numeral of_int_power)
  then have "\<bar>?z\<bar> < 2 ^ 53 * 2 powi k" unfolding abs by simp
  also have "\<dots> = 2 powi (53 + k)" by (simp add: power_int_add)
  finally have up: "\<bar>?z\<bar> < 2 powi (53 + k)" .
  have fine: "?e - 52 \<le> k"
  proof (cases "?e = - 1022")
    case True
    with assms(2) show ?thesis by simp
  next
    case False
    with exponent_ge [of ?z] have "- 1022 < ?e" by linarith
    from exponent_lower [OF z this] up have "(2::real) powi ?e < 2 powi (53 + k)" by linarith
    have "?e < 53 + k"
    proof (rule ccontr)
      assume "\<not> ?e < 53 + k"
      then have "(2::real) powi (53 + k) \<le> 2 powi ?e"
        by (intro power_int_increasing) simp_all
      with \<open>(2::real) powi ?e < 2 powi (53 + k)\<close> show False by linarith
    qed
    then show ?thesis by simp
  qed
  have "(2::real) powi k = 2 powi (k - (?e - 52)) * 2 powi (?e - 52)"
    by (simp add: power_int_add [symmetric])
  moreover have "(2::real) powi (k - (?e - 52)) = of_int (2 ^ nat (k - (?e - 52)))"
    using fine by (simp add: power_int_def)
  ultimately have m: "?z = of_int (a * 2 ^ nat (k - (?e - 52))) * 2 powi (?e - 52)"
    by simp
  have le: "\<bar>?z\<bar> \<le> 2 powi (?e + 1)" using exponent_upper [OF z] by simp
  have "2 powi ?e \<le> \<bar>?z\<bar> \<or> ?e = - 1022"
    using exponent_lower [OF z] exponent_ge [of ?z] by (cases "?e = - 1022") auto
  from rnd_fix_multiple [OF m exponent_ge le this] show ?thesis .
qed

lemma dvd_two_power: "(b::nat) dvd 2 ^ n \<Longrightarrow> \<exists>k\<le>n. b = 2 ^ k"
proof (induction n arbitrary: b)
  case 0
  then show ?case by simp
next
  case (Suc n)
  show ?case
  proof (cases "even b")
    case True
    then obtain c where c: "b = 2 * c" by (auto elim: evenE)
    with Suc.prems have "c dvd 2 ^ n" by simp
    from Suc.IH [OF this] obtain k where "k \<le> n" "c = 2 ^ k" by blast
    with c show ?thesis by (intro exI [of _ "Suc k"]) simp
  next
    case False
    then have "coprime b 2" by simp
    with Suc.prems have "b dvd 2 ^ n"
      by (simp add: coprime_dvd_mult_right_iff)
    from Suc.IH [OF this] obtain k where "k \<le> n" "b = 2 ^ k" by blast
    then show ?thesis by (intro exI [of _ k]) simp
  qed
qed

lemma rnd_frac:
  assumes "(b::nat) dvd 2 ^ 64" and "\<bar>a\<bar> < 2 ^ 53"
  shows "rnd (of_int a / of_nat b) = of_int a / of_nat b"
proof -
  from dvd_two_power [OF assms(1)] obtain k where k: "b = 2 ^ k" "k \<le> 64" by blast
  have "of_int a / (of_nat b :: real) = of_int a * 2 powi (- int k)"
    by (simp add: k(1) power_int_minus field_simps)
  moreover have "rnd (of_int a * 2 powi (- int k)) = of_int a * 2 powi (- int k)"
    using k(2) by (intro rnd_scaled_int assms(2)) simp
  ultimately show ?thesis by simp
qed

text \<open>The Numbers that the roundings of dyadic fractions are.\<close>

lemma toNumber_fix:
  assumes "rnd z = z" and "\<bar>z\<bar> < 2 ^ 1024"
  shows "toNumber z = Finite z"
  using assms by (simp add: toNumber_def Let_def not_le) linarith

lemma toNumber_frac:
  assumes "(b::nat) dvd 2 ^ 64" and "\<bar>a\<bar> < 2 ^ 53"
  shows "toNumber (of_int a / of_nat b) = Finite (of_int a / of_nat b)"
proof (rule toNumber_fix)
  show "rnd (of_int a / of_nat b) = of_int a / of_nat b" by (rule rnd_frac [OF assms])
  have b: "1 \<le> (of_nat b :: real)"
    using assms(1) by (cases "b = 0") simp_all
  have "\<bar>of_int a\<bar> * 1 \<le> \<bar>of_int a\<bar> * (of_nat b :: real)"
    using b by (intro mult_left_mono) simp_all
  then have "\<bar>of_int a / (of_nat b :: real)\<bar> \<le> \<bar>of_int a\<bar>"
    using b by (simp add: field_simps)
  also have "\<dots> < 2 ^ 53" using assms(2) by (metis of_int_abs of_int_less_iff of_int_numeral of_int_power)
  also have "\<dots> \<le> (2::real) ^ 1024" by (intro power_increasing) simp_all
  finally show "\<bar>of_int a / (of_nat b :: real)\<bar> < 2 ^ 1024" .
qed

lemma toNumber_numerals:
  "toNumber 0 = Finite 0"
  "toNumber 1 = Finite 1"
  "toNumber (- 1) = Finite (- 1)"
  "(numeral a :: int) < 2 ^ 53 \<Longrightarrow> toNumber (numeral a) = Finite (numeral a)"
  "(numeral a :: int) < 2 ^ 53 \<Longrightarrow> toNumber (- numeral a) = Finite (- numeral a)"
  "(numeral b :: nat) dvd 2 ^ 64 \<Longrightarrow> toNumber (1 / numeral b) = Finite (1 / numeral b)"
  "(numeral b :: nat) dvd 2 ^ 64 \<Longrightarrow> toNumber (- (1 / numeral b)) = Finite (- (1 / numeral b))"
  "(numeral b :: nat) dvd 2 ^ 64 \<Longrightarrow> (numeral a :: int) < 2 ^ 53 \<Longrightarrow>
     toNumber (numeral a / numeral b) = Finite (numeral a / numeral b)"
  "(numeral b :: nat) dvd 2 ^ 64 \<Longrightarrow> (numeral a :: int) < 2 ^ 53 \<Longrightarrow>
     toNumber (- (numeral a / numeral b)) = Finite (- (numeral a / numeral b))"
proof -
  show "toNumber 0 = Finite 0" using toNumber_frac [of 1 0] by simp
  show "toNumber 1 = Finite 1" using toNumber_frac [of 1 1] by simp
  show "toNumber (- 1) = Finite (- 1)" using toNumber_frac [of 1 "- 1"] by simp
  show "(numeral a :: int) < 2 ^ 53 \<Longrightarrow> toNumber (numeral a) = Finite (numeral a)"
    using toNumber_frac [of 1 "numeral a"] by simp
  show "(numeral a :: int) < 2 ^ 53 \<Longrightarrow> toNumber (- numeral a) = Finite (- numeral a)"
    using toNumber_frac [of 1 "- numeral a"] by simp
  show "(numeral b :: nat) dvd 2 ^ 64 \<Longrightarrow> toNumber (1 / numeral b) = Finite (1 / numeral b)"
    using toNumber_frac [of "numeral b" 1] by simp
  show "(numeral b :: nat) dvd 2 ^ 64 \<Longrightarrow> toNumber (- (1 / numeral b)) = Finite (- (1 / numeral b))"
    using toNumber_frac [of "numeral b" "- 1"] by simp
  show "(numeral b :: nat) dvd 2 ^ 64 \<Longrightarrow> (numeral a :: int) < 2 ^ 53 \<Longrightarrow>
     toNumber (numeral a / numeral b) = Finite (numeral a / numeral b)"
    using toNumber_frac [of "numeral b" "numeral a"] by simp
  show "(numeral b :: nat) dvd 2 ^ 64 \<Longrightarrow> (numeral a :: int) < 2 ^ 53 \<Longrightarrow>
     toNumber (- (numeral a / numeral b)) = Finite (- (numeral a / numeral b))"
    using toNumber_frac [of "numeral b" "- numeral a"] by simp
qed

section \<open>The classifier\<close>

lemma index_Some: "i < length a \<Longrightarrow> index a i = Some (a ! i)"
  by (simp add: index_def)

lemma index_None: "length a \<le> i \<Longrightarrow> index a i = None"
  by (simp add: index_def)

lemma dist_lm_Some: "dist_lm ar (Some a) (Some b) = Inr (planar ar a b)"
  by (simp add: dist_lm_def planar_def)

lemma dist_lm_None: "dist_lm ar None q = Inl TypeError" "dist_lm ar p None = Inl TypeError"
  by (simp_all add: dist_lm_def split: option.splits)

lemma isFingerClosed_Inr:
  "tipIdx < length ls \<Longrightarrow> pipIdx < length ls \<Longrightarrow>
   isFingerClosed ar ls (Some (ls ! 0)) tipIdx pipIdx = Inr (fingerClosed ar ls tipIdx pipIdx)"
  by (simp add: isFingerClosed_def index_Some dist_lm_Some fingerClosed_def)

lemma isFingerClosed_Inl:
  "length ls \<le> tipIdx \<Longrightarrow> isFingerClosed ar ls w tipIdx pipIdx = Inl TypeError"
  by (simp add: isFingerClosed_def index_None dist_lm_None)

text \<open>On a frame of 21 landmarks the classifier returns, with one of four outcomes.\<close>

lemma analyzeGesture_full:
  assumes "21 \<le> length ls"
  shows "analyzeGesture ar ls s =
     Inr (if lt ar (planar ar (ls ! 4) (ls ! 8)) (c005 ar) then
            s\<lparr>currentGesture := PINCH,
              pinchCenter :=
                Some (half ar (add ar (lx (ls ! 4)) (lx (ls ! 8))),
                      half ar (add ar (ly (ls ! 4)) (ly (ls ! 8))))\<rparr>
          else if allClosed ar ls then s\<lparr>pinchCenter := None, currentGesture := FIST\<rparr>
          else if allOpen ar ls then s\<lparr>pinchCenter := None, currentGesture := OPEN_PALM\<rparr>
          else s\<lparr>pinchCenter := None\<rparr>)"
proof -
  from assms have w: "index ls 0 = Some (ls ! 0)" by (auto simp: index_def)
  from assms show ?thesis
    by (simp add: analyzeGesture_def w index_Some dist_lm_Some isFingerClosed_Inr Let_def
        allClosed_def allOpen_def)
qed

lemma analyzeGesture_pinch:
  assumes "9 \<le> length ls" and "lt ar (planar ar (ls ! 4) (ls ! 8)) (c005 ar)"
  shows "analyzeGesture ar ls s =
     Inr (s\<lparr>currentGesture := PINCH,
            pinchCenter :=
              Some (half ar (add ar (lx (ls ! 4)) (lx (ls ! 8))),
                    half ar (add ar (ly (ls ! 4)) (ly (ls ! 8))))\<rparr>)"
  using assms by (simp add: analyzeGesture_def index_Some dist_lm_Some Let_def)

text \<open>A frame with fewer landmarks: where the reads of the classifier stop.\<close>

lemma analyzeGesture_short:
  assumes "length ls < 21"
  shows "analyzeGesture ar ls s =
     (if 9 \<le> length ls then
        if lt ar (planar ar (ls ! 4) (ls ! 8)) (c005 ar) then
          Inr (s\<lparr>currentGesture := PINCH,
                 pinchCenter :=
                   Some (half ar (add ar (lx (ls ! 4)) (lx (ls ! 8))),
                         half ar (add ar (ly (ls ! 4)) (ly (ls ! 8))))\<rparr>)
        else Inl (TypeError, s\<lparr>pinchCenter := None\<rparr>)
      else Inl (TypeError, s))"
proof -
  consider "length ls \<le> 4" | "4 < length ls" "length ls \<le> 8"
    | "9 \<le> length ls" "length ls \<le> 12"
    | "12 < length ls" "length ls \<le> 16" | "16 < length ls" "length ls \<le> 20"
    using assms by linarith
  then show ?thesis
  proof cases
    case 1
    then show ?thesis by (simp add: analyzeGesture_def index_None dist_lm_None Let_def)
  next
    case 2
    then show ?thesis by (simp add: analyzeGesture_def index_None dist_lm_None Let_def)
  next
    case 3
    then have w: "index ls 0 = Some (ls ! 0)" by (auto simp: index_def)
    from 3 show ?thesis
      by (simp add: analyzeGesture_def w index_Some dist_lm_Some Let_def isFingerClosed_Inr
          isFingerClosed_Inl)
  next
    case 4
    then have w: "index ls 0 = Some (ls ! 0)" by (auto simp: index_def)
    from 4 show ?thesis
      by (simp add: analyzeGesture_def w index_Some dist_lm_Some Let_def isFingerClosed_Inr
          isFingerClosed_Inl)
  next
    case 5
    then have w: "index ls 0 = Some (ls ! 0)" by (auto simp: index_def)
    from 5 show ?thesis
      by (simp add: analyzeGesture_def w index_Some dist_lm_Some Let_def isFingerClosed_Inr
          isFingerClosed_Inl)
  qed
qed

text \<open>The invariant, through the classifier, one run and the chain of runs.\<close>

lemma analyzeGesture_inv:
  "pinchCenterInv s \<Longrightarrow> pinchCenterInv (serviceState (analyzeGesture ar ls s))"
  by (auto simp: analyzeGesture_def Let_def serviceState_def pinchCenterInv_def
      split: sum.splits option.splits if_splits)

lemma predictWebcam_inv:
  "pinchCenterInv s \<Longrightarrow> pinchCenterInv (serviceState (predictWebcam ar c s))"
  using analyzeGesture_inv [of s]
  by (auto simp: predictWebcam_def serviceState_def split: cycle.splits option.splits)

lemma predictLoop_inv:
  "pinchCenterInv s \<Longrightarrow> pinchCenterInv (serviceState (predictLoop ar cs s))"
proof (induction cs arbitrary: s)
  case Nil
  then show ?case by (simp add: serviceState_def)
next
  case (Cons c cs)
  show ?case
  proof (cases "predictWebcam ar c s")
    case (Inl e)
    with predictWebcam_inv [OF Cons.prems, of ar c] show ?thesis by simp
  next
    case (Inr s')
    with predictWebcam_inv [OF Cons.prems, of ar c] have "pinchCenterInv s'"
      by (simp add: serviceState_def)
    from Cons.IH [OF this] Inr show ?thesis by simp
  qed
qed

lemma predictWebcam_frame:
  "predictWebcam ar (Results (Some (ls # hands))) s = analyzeGesture ar ls s"
  by (simp add: predictWebcam_def index_def)

section \<open>The classifier in double precision\<close>

text \<open>The frames of Numbers, and the tests in exact arithmetic as tests on squares.\<close>

lemma length_numbers [simp]: "length (numbers ls) = length ls"
  by (simp add: numbers_def)

lemma nth_numbers:
  "i < length ls \<Longrightarrow>
   numbers ls ! i = Landmark (Finite (lx (ls ! i))) (Finite (ly (ls ! i))) (Finite (lz (ls ! i)))"
  by (simp add: numbers_def)

lemma euclid_less_iff:
  "0 < c \<Longrightarrow> euclid a b < c \<longleftrightarrow> (lx a - lx b) ^ 2 + (ly a - ly b) ^ 2 < c ^ 2"
proof -
  assume c: "0 < c"
  have "euclid a b < c \<longleftrightarrow> sqrt ((lx a - lx b) ^ 2 + (ly a - ly b) ^ 2) < sqrt (c ^ 2)"
    using c by (simp add: euclid_def)
  then show ?thesis by (simp only: real_sqrt_less_iff)
qed

lemma euclid_pinch_iff:
  "euclid a b * 20 < 1 \<longleftrightarrow> ((lx a - lx b) ^ 2 + (ly a - ly b) ^ 2) * 400 < 1"
  using euclid_less_iff [of "1 / 20" a b] by (simp add: power2_eq_square)

lemma curled_iff:
  "curled ls t p \<longleftrightarrow>
     (lx (ls ! t) - lx (ls ! 0)) ^ 2 + (ly (ls ! t) - ly (ls ! 0)) ^ 2
       < (lx (ls ! p) - lx (ls ! 0)) ^ 2 + (ly (ls ! p) - ly (ls ! 0)) ^ 2"
  by (simp add: curled_def euclid_def)

text \<open>The square roots that the frames need, and the double of the literal \<open>0.05\<close>.\<close>

lemma sqrt_values:
  "sqrt (1 / 1024) = 1 / 32" "sqrt (25 / 1024) = 5 / 32" "sqrt (25 / 256) = 5 / 16"
  "sqrt (25 / 64) = 5 / 8" "sqrt (1 / 16) = 1 / 4" "sqrt (1 / 4) = 1 / 2"
  "sqrt (225 / 1024) = 15 / 32"
  by (rule real_sqrt_unique; simp add: power2_eq_square)+

lemma rnd_005: "rnd (1 / 20) = 3602879701896397 / 72057594037927936"
  using rnd_eqI [of "- 5" "1 / 20" 7205759403792794]
  by (simp add: power_int_minus)

lemma c005_binary64: "c005 binary64 = Finite (3602879701896397 / 72057594037927936)"
  by (simp add: binary64_def toNumber_def Let_def rnd_005)

text \<open>The frames used as inputs are frames of doubles.\<close>

lemma rnd_numerals:
  "rnd 1 = 1"
  "rnd (- 1) = - 1"
  "(numeral a :: int) < 2 ^ 53 \<Longrightarrow> rnd (numeral a) = numeral a"
  "(numeral a :: int) < 2 ^ 53 \<Longrightarrow> rnd (- numeral a) = - numeral a"
  "(numeral b :: nat) dvd 2 ^ 64 \<Longrightarrow> rnd (1 / numeral b) = 1 / numeral b"
  "(numeral b :: nat) dvd 2 ^ 64 \<Longrightarrow> rnd (- (1 / numeral b)) = - (1 / numeral b)"
  "(numeral b :: nat) dvd 2 ^ 64 \<Longrightarrow> (numeral a :: int) < 2 ^ 53 \<Longrightarrow>
     rnd (numeral a / numeral b) = numeral a / numeral b"
  "(numeral b :: nat) dvd 2 ^ 64 \<Longrightarrow> (numeral a :: int) < 2 ^ 53 \<Longrightarrow>
     rnd (- (numeral a / numeral b)) = - (numeral a / numeral b)"
proof -
  show "rnd 1 = 1" using rnd_frac [of 1 1] by simp
  show "rnd (- 1) = - 1" using rnd_frac [of 1 "- 1"] by simp
  show "(numeral a :: int) < 2 ^ 53 \<Longrightarrow> rnd (numeral a) = numeral a"
    using rnd_frac [of 1 "numeral a"] by simp
  show "(numeral a :: int) < 2 ^ 53 \<Longrightarrow> rnd (- numeral a) = - numeral a"
    using rnd_frac [of 1 "- numeral a"] by simp
  show "(numeral b :: nat) dvd 2 ^ 64 \<Longrightarrow> rnd (1 / numeral b) = 1 / numeral b"
    using rnd_frac [of "numeral b" 1] by simp
  show "(numeral b :: nat) dvd 2 ^ 64 \<Longrightarrow> rnd (- (1 / numeral b)) = - (1 / numeral b)"
    using rnd_frac [of "numeral b" "- 1"] by simp
  show "(numeral b :: nat) dvd 2 ^ 64 \<Longrightarrow> (numeral a :: int) < 2 ^ 53 \<Longrightarrow>
     rnd (numeral a / numeral b) = numeral a / numeral b"
    using rnd_frac [of "numeral b" "numeral a"] by simp
  show "(numeral b :: nat) dvd 2 ^ 64 \<Longrightarrow> (numeral a :: int) < 2 ^ 53 \<Longrightarrow>
     rnd (- (numeral a / numeral b)) = - (numeral a / numeral b)"
    using rnd_frac [of "numeral b" "- numeral a"] by simp
qed

lemma frames_of_doubles:
  "doubleFrame pinchFrame" "doubleFrame ambiguousFrame" "doubleFrame boundaryFrame"
  by (simp_all add: doubleFrame_def pinchFrame_def ambiguousFrame_def boundaryFrame_def
      rnd_numerals)

text \<open>The tests of the classifier on the frames \<open>pinchFrame\<close> and \<open>ambiguousFrame\<close>.\<close>

lemma pinchFrame_distance:
  "planar binary64 (numbers pinchFrame ! 4) (numbers pinchFrame ! 8) = Finite (1 / 32)"
  by (simp add: numbers_def pinchFrame_def planar_def binary64_def minus64_def
      toNumber_numerals sqrt_values)

lemma pinchFrame_pinch:
  "lt binary64 (planar binary64 (numbers pinchFrame ! 4) (numbers pinchFrame ! 8)) (c005 binary64)"
  by (simp add: pinchFrame_distance c005_binary64) (simp add: binary64_def)

lemma ambiguousFrame_distance:
  "planar binary64 (numbers ambiguousFrame ! 4) (numbers ambiguousFrame ! 8) = Finite (5 / 16)"
  by (simp add: numbers_def ambiguousFrame_def planar_def binary64_def minus64_def
      toNumber_numerals sqrt_values)

lemma ambiguousFrame_fingers:
  "fingerClosed binary64 (numbers ambiguousFrame) 8 6"
  "\<not> fingerClosed binary64 (numbers ambiguousFrame) 12 10"
  "\<not> fingerClosed binary64 (numbers ambiguousFrame) 16 14"
  "\<not> fingerClosed binary64 (numbers ambiguousFrame) 20 18"
  by (simp_all add: numbers_def ambiguousFrame_def fingerClosed_def planar_def binary64_def
      minus64_def toNumber_numerals sqrt_values)

text \<open>The distance that the classifier computes for the two tips of \<open>boundaryFrame\<close>.\<close>

lemma toNumber_rnd:
  "rnd z = r \<Longrightarrow> \<bar>r\<bar> < 2 ^ 1024 \<Longrightarrow> toNumber z = Finite r"
  by (auto simp: toNumber_def Let_def)

lemma boundary_dx:
  "minus64 (Finite (1 / 4)) (Finite (2701691274906249 / 9007199254740992)) =
     Finite (- (449891461221001 / 9007199254740992))"
  by (simp add: minus64_def toNumber_numerals)

lemma boundary_dy:
  "minus64 (Finite (1 / 2)) (Finite (4524136646554137 / 9007199254740992)) =
     Finite (- (20537019183641 / 9007199254740992))"
  by (simp add: minus64_def toNumber_numerals)

lemma boundary_dx2:
  "pow2_64 (Finite (- (449891461221001 / 9007199254740992))) =
     Finite (5752620122608717 / 2305843009213693952)"
proof -
  have "rnd (- (449891461221001 / 9007199254740992) * - (449891461221001 / 9007199254740992)) =
      5752620122608717 / 2305843009213693952"
    using rnd_eqI [of "- 9"
        "- (449891461221001 / 9007199254740992) * - (449891461221001 / 9007199254740992)"
        5752620122608717]
    by (simp add: power_int_minus)
  then show ?thesis by (simp add: toNumber_rnd)
qed

lemma boundary_dy2:
  "pow2_64 (Finite (- (20537019183641 / 9007199254740992))) =
     Finite (6137549017865072 / 1180591620717411303424)"
proof -
  have "rnd (- (20537019183641 / 9007199254740992) * - (20537019183641 / 9007199254740992)) =
      6137549017865072 / 1180591620717411303424"
    using rnd_eqI [of "- 18"
        "- (20537019183641 / 9007199254740992) * - (20537019183641 / 9007199254740992)"
        6137549017865072]
    by (simp add: power_int_minus)
  then show ?thesis by (simp add: toNumber_rnd)
qed

lemma boundary_sum:
  "plus64 (Finite (5752620122608717 / 2305843009213693952))
          (Finite (6137549017865072 / 1180591620717411303424)) =
     Finite (5764607523034235 / 2305843009213693952)"
proof -
  have "rnd (5752620122608717 / 2305843009213693952
             + 6137549017865072 / 1180591620717411303424) =
      5764607523034235 / 2305843009213693952"
    using rnd_eqI [of "- 9"
        "5752620122608717 / 2305843009213693952 + 6137549017865072 / 1180591620717411303424"
        5764607523034235]
    by (simp add: power_int_minus)
  then show ?thesis by (simp add: toNumber_rnd)
qed

lemma boundary_sqrt:
  "sqrt64 (Finite (5764607523034235 / 2305843009213693952)) =
     Finite (3602879701896397 / 72057594037927936)"
proof -
  let ?s = "5764607523034235 / 2305843009213693952 :: real"
  let ?r = "3602879701896397 / 72057594037927936 :: real"
  let ?h = "1 / 288230376151711744 :: real"
  have lo: "?r - ?h < sqrt ?s"
    by (rule real_less_rsqrt) (simp add: power2_eq_square)
  have hi: "sqrt ?s < ?r + ?h"
    by (rule real_less_lsqrt) (simp_all add: power2_eq_square)
  have b1: "1 / 32 \<le> sqrt ?s"
    by (rule real_le_rsqrt) (simp add: power2_eq_square)
  have b2: "sqrt ?s < 1 / 16"
    by (rule real_less_lsqrt) (simp_all add: power2_eq_square)
  have pos: "0 \<le> sqrt ?s" by simp
  have "rnd (sqrt ?s) = ?r"
    using rnd_eqI [of "- 5" "sqrt ?s" 7205759403792794] lo hi b1 b2 pos
    by (simp add: power_int_minus abs_if)
  then show ?thesis by (simp add: toNumber_rnd)
qed

lemma boundaryFrame_distance:
  "planar binary64 (numbers boundaryFrame ! 4) (numbers boundaryFrame ! 8) =
     Finite (3602879701896397 / 72057594037927936)"
proof -
  have "planar binary64 (numbers boundaryFrame ! 4) (numbers boundaryFrame ! 8) =
      sqrt64 (plus64
        (pow2_64 (minus64 (Finite (1 / 4)) (Finite (2701691274906249 / 9007199254740992))))
        (pow2_64 (minus64 (Finite (1 / 2)) (Finite (4524136646554137 / 9007199254740992)))))"
    by (simp add: numbers_def boundaryFrame_def planar_def binary64_def)
  also have "\<dots> = Finite (3602879701896397 / 72057594037927936)"
    by (simp only: boundary_dx boundary_dy boundary_dx2 boundary_dy2 boundary_sum boundary_sqrt)
  finally show ?thesis .
qed

lemma boundaryFrame_no_pinch:
  "\<not> lt binary64 (planar binary64 (numbers boundaryFrame ! 4) (numbers boundaryFrame ! 8))
       (c005 binary64)"
  by (simp add: boundaryFrame_distance c005_binary64) (simp add: binary64_def)

lemma boundaryFrame_exact:
  "euclid (boundaryFrame ! 4) (boundaryFrame ! 8) * 20 < 1"
  by (simp add: euclid_pinch_iff boundaryFrame_def power2_eq_square)

text \<open>The distance that it computes from the index tip of \<open>boundaryFrame\<close> to the wrist.\<close>

lemma boundary_wx:
  "minus64 (Finite (2701691274906249 / 9007199254740992)) (Finite (1 / 2)) =
     Finite (- (1801908352464247 / 9007199254740992))"
  by (simp add: minus64_def toNumber_numerals)

lemma boundary_wy:
  "minus64 (Finite (4524136646554137 / 9007199254740992)) (Finite (7 / 8)) =
     Finite (- (3357162701344231 / 9007199254740992))"
  by (simp add: minus64_def toNumber_numerals)

lemma boundary_wx2:
  "pow2_64 (Finite (- (1801908352464247 / 9007199254740992))) =
     Finite (5767606322636029 / 144115188075855872)"
proof -
  have "rnd (- (1801908352464247 / 9007199254740992) * - (1801908352464247 / 9007199254740992)) =
      5767606322636029 / 144115188075855872"
    using rnd_eqI [of "- 5"
        "- (1801908352464247 / 9007199254740992) * - (1801908352464247 / 9007199254740992)"
        5767606322636029]
    by (simp add: power_int_minus)
  then show ?thesis by (simp add: toNumber_rnd)
qed

lemma boundary_wy2:
  "pow2_64 (Finite (- (3357162701344231 / 9007199254740992))) =
     Finite (5005125826372534 / 36028797018963968)"
proof -
  have "rnd (- (3357162701344231 / 9007199254740992) * - (3357162701344231 / 9007199254740992)) =
      5005125826372534 / 36028797018963968"
    using rnd_eqI [of "- 3"
        "- (3357162701344231 / 9007199254740992) * - (3357162701344231 / 9007199254740992)"
        5005125826372534]
    by (simp add: power_int_minus)
  then show ?thesis by (simp add: toNumber_rnd)
qed

lemma boundary_wsum:
  "plus64 (Finite (5767606322636029 / 144115188075855872))
          (Finite (5005125826372534 / 36028797018963968)) =
     Finite (6447027407031541 / 36028797018963968)"
proof -
  have "rnd (5767606322636029 / 144115188075855872 + 5005125826372534 / 36028797018963968) =
      6447027407031541 / 36028797018963968"
    using rnd_eqI [of "- 3"
        "5767606322636029 / 144115188075855872 + 5005125826372534 / 36028797018963968"
        6447027407031541]
    by (simp add: power_int_minus)
  then show ?thesis by (simp add: toNumber_rnd)
qed

lemma boundary_wsqrt:
  "sqrt64 (Finite (6447027407031541 / 36028797018963968)) =
     Finite (7620345166454683 / 18014398509481984)"
proof -
  let ?s = "6447027407031541 / 36028797018963968 :: real"
  let ?r = "7620345166454683 / 18014398509481984 :: real"
  let ?h = "1 / 36028797018963968 :: real"
  have lo: "?r - ?h < sqrt ?s"
    by (rule real_less_rsqrt) (simp add: power2_eq_square)
  have hi: "sqrt ?s < ?r + ?h"
    by (rule real_less_lsqrt) (simp_all add: power2_eq_square)
  have b1: "1 / 4 \<le> sqrt ?s"
    by (rule real_le_rsqrt) (simp add: power2_eq_square)
  have b2: "sqrt ?s < 1 / 2"
    by (rule real_less_lsqrt) (simp_all add: power2_eq_square)
  have pos: "0 \<le> sqrt ?s" by simp
  have "rnd (sqrt ?s) = ?r"
    using rnd_eqI [of "- 2" "sqrt ?s" 7620345166454683] lo hi b1 b2 pos
    by (simp add: power_int_minus abs_if)
  then show ?thesis by (simp add: toNumber_rnd)
qed

lemma boundaryFrame_index:
  "planar binary64 (numbers boundaryFrame ! 8) (numbers boundaryFrame ! 0) =
     Finite (7620345166454683 / 18014398509481984)"
proof -
  have "planar binary64 (numbers boundaryFrame ! 8) (numbers boundaryFrame ! 0) =
      sqrt64 (plus64
        (pow2_64 (minus64 (Finite (2701691274906249 / 9007199254740992)) (Finite (1 / 2))))
        (pow2_64 (minus64 (Finite (4524136646554137 / 9007199254740992)) (Finite (7 / 8)))))"
    by (simp add: numbers_def boundaryFrame_def planar_def binary64_def)
  also have "\<dots> = Finite (7620345166454683 / 18014398509481984)"
    by (simp only: boundary_wx boundary_wy boundary_wx2 boundary_wy2 boundary_wsum
        boundary_wsqrt)
  finally show ?thesis .
qed

lemma boundaryFrame_pip:
  "planar binary64 (numbers boundaryFrame ! 6) (numbers boundaryFrame ! 0) = Finite (5 / 16)"
  by (simp add: numbers_def boundaryFrame_def planar_def binary64_def minus64_def
      toNumber_numerals sqrt_values)

lemma boundaryFrame_fingers:
  "\<not> fingerClosed binary64 (numbers boundaryFrame) 8 6"
  "\<not> fingerClosed binary64 (numbers boundaryFrame) 12 10"
  "\<not> fingerClosed binary64 (numbers boundaryFrame) 16 14"
  "\<not> fingerClosed binary64 (numbers boundaryFrame) 20 18"
proof -
  show "\<not> fingerClosed binary64 (numbers boundaryFrame) 8 6"
    by (simp add: fingerClosed_def boundaryFrame_index boundaryFrame_pip)
      (simp add: binary64_def)
qed (simp_all add: numbers_def boundaryFrame_def fingerClosed_def planar_def binary64_def
      minus64_def toNumber_numerals sqrt_values)

lemma boundaryFrame_result:
  "analyzeGesture binary64 (numbers boundaryFrame) initialService =
     Inr \<lparr>currentGesture = OPEN_PALM, pinchCenter = None\<rparr>"
proof -
  have len: "21 \<le> length (numbers boundaryFrame)" by (simp add: boundaryFrame_def)
  show ?thesis
    by (simp add: analyzeGesture_full [OF len] boundaryFrame_no_pinch allClosed_def allOpen_def
        boundaryFrame_fingers initialService_def)
qed

lemma pinchFrame_center:
  "half binary64 (add binary64 (lx (numbers pinchFrame ! 4)) (lx (numbers pinchFrame ! 8))) =
     Finite (9 / 64)"
  "half binary64 (add binary64 (ly (numbers pinchFrame ! 4)) (ly (numbers pinchFrame ! 8))) =
     Finite (3 / 8)"
  by (simp_all add: numbers_def pinchFrame_def binary64_def toNumber_numerals)

lemma pinchFrame_result:
  "analyzeGesture binary64 (numbers pinchFrame) s =
     Inr (s\<lparr>currentGesture := PINCH, pinchCenter := Some (Finite (9 / 64), Finite (3 / 8))\<rparr>)"
proof -
  have len: "9 \<le> length (numbers pinchFrame)" by (simp add: pinchFrame_def)
  show ?thesis
    by (simp only: analyzeGesture_pinch [OF len pinchFrame_pinch] pinchFrame_center)
qed

lemma ambiguousFrame_no_pinch:
  "\<not> lt binary64 (planar binary64 (numbers ambiguousFrame ! 4) (numbers ambiguousFrame ! 8))
       (c005 binary64)"
  by (simp add: ambiguousFrame_distance c005_binary64) (simp add: binary64_def)

lemma ambiguousFrame_tests:
  "\<not> allClosed binary64 (numbers ambiguousFrame)" "\<not> allOpen binary64 (numbers ambiguousFrame)"
  by (simp_all add: allClosed_def allOpen_def ambiguousFrame_fingers)

lemma ambiguousFrame_result:
  "analyzeGesture binary64 (numbers ambiguousFrame) s = Inr (s\<lparr>pinchCenter := None\<rparr>)"
proof -
  have len: "21 \<le> length (numbers ambiguousFrame)" by (simp add: ambiguousFrame_def)
  show ?thesis
    by (simp add: analyzeGesture_full [OF len] ambiguousFrame_no_pinch ambiguousFrame_tests)
qed

lemma ambiguousFrame_exact:
  "\<not> euclid (ambiguousFrame ! 4) (ambiguousFrame ! 8) * 20 < 1"
  "curled ambiguousFrame 8 6" "\<not> curled ambiguousFrame 12 10"
  by (simp_all add: euclid_pinch_iff curled_iff ambiguousFrame_def power2_eq_square)

lemma short_numbers:
  "numbers shortPinchFrame = take 9 (numbers pinchFrame)"
  "numbers shortFrame = take 9 (numbers ambiguousFrame)"
  by (simp_all add: numbers_def shortPinchFrame_def shortFrame_def take_map)

lemma short_tips:
  "numbers shortPinchFrame ! 4 = numbers pinchFrame ! 4"
  "numbers shortPinchFrame ! 8 = numbers pinchFrame ! 8"
  "numbers shortFrame ! 4 = numbers ambiguousFrame ! 4"
  "numbers shortFrame ! 8 = numbers ambiguousFrame ! 8"
  by (simp_all add: short_numbers)

section \<open>The gestures\<close>

text \<open>
  C2, as stated, fails in the arithmetic of the program. The thumb and index tips of
  \<open>boundaryFrame\<close> are less than \<open>0.05\<close> apart, but the distance that the classifier
  computes for them is the double of the literal \<^verbatim>\<open>0.05\<close>, which is not less than
  itself: the frame is classified as \<open>OPEN_PALM\<close> and the pinch centre stays null.
\<close>

theorem pinch_boundary_counterexample:
  "length boundaryFrame = 21 \<and> doubleFrame boundaryFrame
   \<and> euclid (boundaryFrame ! 4) (boundaryFrame ! 8) < 0.05
   \<and> planar binary64 (numbers boundaryFrame ! 4) (numbers boundaryFrame ! 8) = c005 binary64
   \<and> analyzeGesture binary64 (numbers boundaryFrame) initialService =
       Inr \<lparr>currentGesture = OPEN_PALM, pinchCenter = None\<rparr>"
proof -
  have "length boundaryFrame = 21" by (simp add: boundaryFrame_def)
  moreover have "euclid (boundaryFrame ! 4) (boundaryFrame ! 8) < 0.05"
    using boundaryFrame_exact by simp
  moreover have
    "planar binary64 (numbers boundaryFrame ! 4) (numbers boundaryFrame ! 8) = c005 binary64"
    by (simp only: boundaryFrame_distance c005_binary64)
  ultimately show ?thesis using boundaryFrame_result frames_of_doubles(3) by simp
qed

text \<open>
  C2, amended. A frame of at least nine landmarks is classified as \<open>PINCH\<close>, with the
  pinch centre at the midpoint of the thumb tip (landmark 4) and the index tip
  (landmark 8) as the program computes it, whenever the distance that \<^verbatim>\<open>dist\<close>
  computes for the two tips is less than the Number of the literal \<^verbatim>\<open>0.05\<close>, whatever
  the other landmarks are: no test on the other fingers is a hypothesis. This holds for
  every arithmetic of Numbers.
\<close>

theorem pinch_has_first_priority:
  assumes "9 \<le> length landmarks"
    and "lt ar (planar ar (landmarks ! 4) (landmarks ! 8)) (c005 ar)"
  shows "analyzeGesture ar landmarks s =
     Inr (s\<lparr>currentGesture := PINCH,
            pinchCenter :=
              Some (half ar (add ar (lx (landmarks ! 4)) (lx (landmarks ! 8))),
                    half ar (add ar (ly (landmarks ! 4)) (ly (landmarks ! 8))))\<rparr>)"
  using assms by (rule analyzeGesture_pinch)

theorem pinch_has_first_priority_witness:
  "9 \<le> length (numbers pinchFrame)
   \<and> lt binary64 (planar binary64 (numbers pinchFrame ! 4) (numbers pinchFrame ! 8))
        (c005 binary64)
   \<and> analyzeGesture binary64 (numbers pinchFrame) initialService =
       Inr \<lparr>currentGesture = PINCH, pinchCenter = Some (Finite (9 / 64), Finite (3 / 8))\<rparr>"
proof -
  have h1: "9 \<le> length (numbers pinchFrame)" by (simp add: pinchFrame_def)
  have "analyzeGesture binary64 (numbers pinchFrame) initialService =
       Inr \<lparr>currentGesture = PINCH, pinchCenter = Some (Finite (9 / 64), Finite (3 / 8))\<rparr>"
    using pinch_has_first_priority [OF h1 pinchFrame_pinch, of initialService]
    by (simp add: pinchFrame_center initialService_def)
  with h1 pinchFrame_pinch show ?thesis by simp
qed

text \<open>
  C1, as stated, fails: on a frame that is neither a pinch, nor a fist, nor an open palm,
  in exact arithmetic and in the arithmetic of the program alike, the classifier leaves
  the gesture as it was; here it stays \<open>FIST\<close>.
\<close>

theorem ambiguous_pose_counterexample:
  "length ambiguousFrame = 21 \<and> doubleFrame ambiguousFrame
   \<and> 0.05 \<le> euclid (ambiguousFrame ! 4) (ambiguousFrame ! 8)
   \<and> curled ambiguousFrame 8 6 \<and> \<not> curled ambiguousFrame 12 10
   \<and> \<not> lt binary64
        (planar binary64 (numbers ambiguousFrame ! 4) (numbers ambiguousFrame ! 8))
        (c005 binary64)
   \<and> \<not> allClosed binary64 (numbers ambiguousFrame)
   \<and> \<not> allOpen binary64 (numbers ambiguousFrame)
   \<and> analyzeGesture binary64 (numbers ambiguousFrame)
         \<lparr>currentGesture = FIST, pinchCenter = None\<rparr> =
       Inr \<lparr>currentGesture = FIST, pinchCenter = None\<rparr>
   \<and> currentGesture (serviceState
        (analyzeGesture binary64 (numbers ambiguousFrame)
           \<lparr>currentGesture = FIST, pinchCenter = None\<rparr>)) \<noteq> NONE"
proof -
  have "length ambiguousFrame = 21" by (simp add: ambiguousFrame_def)
  moreover have "0.05 \<le> euclid (ambiguousFrame ! 4) (ambiguousFrame ! 8)"
    using ambiguousFrame_exact(1) by simp
  ultimately show ?thesis
    using ambiguousFrame_exact(2,3) ambiguousFrame_no_pinch ambiguousFrame_tests
      frames_of_doubles(2)
    by (simp add: ambiguousFrame_result serviceState_def)
qed

text \<open>
  C1, amended. On a frame of 21 landmarks for which the classifier finds the thumb and
  index tips not less than \<open>0.05\<close> apart, not all four fingers closed and not all four
  open (the three tests as it computes them, in every arithmetic of Numbers), it returns
  without writing the gesture: the gesture keeps its last value, and the pinch centre is
  cleared.
\<close>

theorem ambiguous_pose_keeps_gesture:
  assumes "21 \<le> length landmarks"
    and "\<not> lt ar (planar ar (landmarks ! 4) (landmarks ! 8)) (c005 ar)"
    and "\<not> allClosed ar landmarks" and "\<not> allOpen ar landmarks"
  shows "analyzeGesture ar landmarks s = Inr (s\<lparr>pinchCenter := None\<rparr>)"
  using assms(2-4) by (simp add: analyzeGesture_full [OF assms(1)])

theorem ambiguous_pose_keeps_gesture_witness:
  "21 \<le> length (numbers ambiguousFrame)
   \<and> \<not> lt binary64
        (planar binary64 (numbers ambiguousFrame ! 4) (numbers ambiguousFrame ! 8))
        (c005 binary64)
   \<and> \<not> allClosed binary64 (numbers ambiguousFrame)
   \<and> \<not> allOpen binary64 (numbers ambiguousFrame)
   \<and> analyzeGesture binary64 (numbers ambiguousFrame)
         \<lparr>currentGesture = OPEN_PALM, pinchCenter = Some (Finite (1 / 4), Finite (1 / 2))\<rparr> =
       Inr \<lparr>currentGesture = OPEN_PALM, pinchCenter = None\<rparr>"
proof -
  have h1: "21 \<le> length (numbers ambiguousFrame)" by (simp add: ambiguousFrame_def)
  from ambiguous_pose_keeps_gesture
    [OF h1 ambiguousFrame_no_pinch ambiguousFrame_tests,
      of "\<lparr>currentGesture = OPEN_PALM, pinchCenter = Some (Finite (1 / 4), Finite (1 / 2))\<rparr>"]
  show ?thesis using h1 ambiguousFrame_no_pinch ambiguousFrame_tests by simp
qed

text \<open>
  C3, as stated, fails: a frame of nine landmarks is not rejected. Its landmark 20 is
  missing, and it is classified as \<open>PINCH\<close> like a full frame.
\<close>

theorem short_frame_counterexample:
  "length (numbers shortPinchFrame) < 21 \<and> index (numbers shortPinchFrame) 20 = None
   \<and> analyzeGesture binary64 (numbers shortPinchFrame) initialService =
       Inr \<lparr>currentGesture = PINCH, pinchCenter = Some (Finite (9 / 64), Finite (3 / 8))\<rparr>"
proof -
  have h1: "9 \<le> length (numbers shortPinchFrame)"
    by (simp add: shortPinchFrame_def pinchFrame_def)
  have h2: "lt binary64
      (planar binary64 (numbers shortPinchFrame ! 4) (numbers shortPinchFrame ! 8))
      (c005 binary64)"
    unfolding short_tips by (rule pinchFrame_pinch)
  have "analyzeGesture binary64 (numbers shortPinchFrame) initialService =
       Inr \<lparr>currentGesture = PINCH, pinchCenter = Some (Finite (9 / 64), Finite (3 / 8))\<rparr>"
    by (simp only: analyzeGesture_pinch [OF h1 h2] short_tips pinchFrame_center)
      (simp add: initialService_def)
  moreover have
    "length (numbers shortPinchFrame) < 21 \<and> index (numbers shortPinchFrame) 20 = None"
    by (simp add: shortPinchFrame_def pinchFrame_def index_def)
  ultimately show ?thesis by simp
qed

text \<open>
  C3, amended. The classifier does not check the number of landmarks. A frame with fewer
  than 21 landmarks is classified as \<open>PINCH\<close>, like a full frame, when it has at least nine
  landmarks and the classifier finds its thumb and index tips less than \<open>0.05\<close> apart. On
  every other such frame the classifier throws a \<open>TypeError\<close> at the first missing landmark
  whose coordinates it reads: the gesture is unchanged, and the pinch centre has been
  cleared when the frame has at least nine landmarks. The exception leaves
  \<^verbatim>\<open>predictWebcam\<close> before it requests the next frame, so no later frame is classified.
  The pinch test is the one that the program computes, in every arithmetic of Numbers.
\<close>

theorem short_frame_is_not_checked:
  assumes "length landmarks < 21"
  shows "(9 \<le> length landmarks \<and> lt ar (planar ar (landmarks ! 4) (landmarks ! 8)) (c005 ar) \<longrightarrow>
            analyzeGesture ar landmarks s =
              Inr (s\<lparr>currentGesture := PINCH,
                     pinchCenter :=
                       Some (half ar (add ar (lx (landmarks ! 4)) (lx (landmarks ! 8))),
                             half ar (add ar (ly (landmarks ! 4)) (ly (landmarks ! 8))))\<rparr>))
       \<and> (\<not> (9 \<le> length landmarks
              \<and> lt ar (planar ar (landmarks ! 4) (landmarks ! 8)) (c005 ar)) \<longrightarrow>
            analyzeGesture ar landmarks s =
              Inl (TypeError, if 9 \<le> length landmarks then s\<lparr>pinchCenter := None\<rparr> else s)
            \<and> predictLoop ar (Results (Some (landmarks # hands)) # cs) s =
              Inl (TypeError, if 9 \<le> length landmarks then s\<lparr>pinchCenter := None\<rparr> else s))"
  by (simp add: predictWebcam_frame analyzeGesture_short [OF assms])

theorem short_frame_is_not_checked_witness:
  "length (numbers shortFrame) < 21
   \<and> \<not> (9 \<le> length (numbers shortFrame)
         \<and> lt binary64 (planar binary64 (numbers shortFrame ! 4) (numbers shortFrame ! 8))
              (c005 binary64))
   \<and> analyzeGesture binary64 (numbers shortFrame)
         \<lparr>currentGesture = FIST, pinchCenter = Some (Finite (1 / 4), Finite (1 / 2))\<rparr> =
       Inl (TypeError, \<lparr>currentGesture = FIST, pinchCenter = None\<rparr>)
   \<and> predictLoop binary64
         [Results (Some [numbers shortFrame]), Results (Some [numbers pinchFrame])]
         \<lparr>currentGesture = FIST, pinchCenter = Some (Finite (1 / 4), Finite (1 / 2))\<rparr> =
       Inl (TypeError, \<lparr>currentGesture = FIST, pinchCenter = None\<rparr>)"
proof -
  have h1: "length (numbers shortFrame) < 21" by (simp add: shortFrame_def ambiguousFrame_def)
  have h2: "\<not> lt binary64
      (planar binary64 (numbers shortFrame ! 4) (numbers shortFrame ! 8)) (c005 binary64)"
    unfolding short_tips by (rule ambiguousFrame_no_pinch)
  have h3: "9 \<le> length (numbers shortFrame)" by (simp add: shortFrame_def ambiguousFrame_def)
  from short_frame_is_not_checked [OF h1,
      of binary64 "\<lparr>currentGesture = FIST, pinchCenter = Some (Finite (1 / 4), Finite (1 / 2))\<rparr>"
         "[]" "[Results (Some [numbers pinchFrame])]"]
  show ?thesis using h1 h2 h3 by simp
qed

text \<open>
  C4, as stated, fails: after a pinch frame and then a frame that is neither a pinch,
  nor a fist, nor an open palm, the gesture is \<open>PINCH\<close> and there is no pinch centre.
\<close>

theorem pinch_center_counterexample:
  "predictLoop binary64
       [Results (Some [numbers pinchFrame]), Results (Some [numbers ambiguousFrame])]
       initialService =
     Inr \<lparr>currentGesture = PINCH, pinchCenter = None\<rparr>
   \<and> \<not> (pinchCenter \<lparr>currentGesture = PINCH, pinchCenter = (None :: (Number \<times> Number) option)\<rparr>
           \<noteq> None
         \<longleftrightarrow> currentGesture
               \<lparr>currentGesture = PINCH, pinchCenter = (None :: (Number \<times> Number) option)\<rparr>
             = PINCH)"
  by (simp add: predictWebcam_frame pinchFrame_result ambiguousFrame_result initialService_def)

text \<open>
  C4, amended. At every point of a session, whether the chain of runs of
  \<^verbatim>\<open>predictWebcam\<close> is still going or has ended with an exception, a pinch centre
  that is present implies that the gesture is \<open>PINCH\<close>: whenever the gesture is not
  \<open>PINCH\<close>, the pinch centre is null. This holds for every arithmetic of Numbers.
\<close>

theorem pinch_center_only_while_pinch:
  "pinchCenterInv (serviceState (predictLoop ar cs initialService))"
  by (rule predictLoop_inv) (simp add: pinchCenterInv_def initialService_def)

theorem pinch_center_only_while_pinch_witness:
  "pinchCenterInv (serviceState
     (predictLoop binary64 [Results (Some [numbers pinchFrame]), NotReady, Results (Some [])]
        initialService))
   \<and> serviceState
       (predictLoop binary64 [Results (Some [numbers pinchFrame]), NotReady, Results (Some [])]
          initialService) =
     \<lparr>currentGesture = PINCH, pinchCenter = Some (Finite (9 / 64), Finite (3 / 8))\<rparr>"
proof -
  have "serviceState
       (predictLoop binary64 [Results (Some [numbers pinchFrame]), NotReady, Results (Some [])]
          initialService) =
     \<lparr>currentGesture = PINCH, pinchCenter = Some (Finite (9 / 64), Finite (3 / 8))\<rparr>"
    by (simp add: predictWebcam_frame pinchFrame_result serviceState_def)
      (simp add: predictWebcam_def index_def initialService_def)
  with pinch_center_only_while_pinch
    [of binary64 "[Results (Some [numbers pinchFrame]), NotReady, Results (Some [])]"]
  show ?thesis by simp
qed

section \<open>The animation loop\<close>

text \<open>The equations of the loops are unfolded only where a proof asks for them.\<close>

declare scatterLoop.simps [simp del] treeLoop.simps [simp del] focusLoop.simps [simp del]
  meshLoop.simps [simp del] transitionLoop.simps [simp del] animateLoop.simps [simp del]
























lemma gap_nonneg: "0 \<le> gap a b"
  by (simp add: gap_def split: Number.splits)
















section \<open>Motion\<close>




section \<open>The transition loop\<close>

lemma mesh_update_same:
  "targetPosition m = a \<Longrightarrow> targetRotation m = b \<Longrightarrow>
   m\<lparr>targetPosition := a, targetRotation := b\<rparr> = m"
  by simp

lemma transitionLoop_lookAt:
  assumes "length (meshes v) \<le> length T"
  shows "\<exists>ms. transitionLoop L T True i v = Inr (v\<lparr>meshes := ms\<rparr>)
    \<and> length ms = length (meshes v)
    \<and> (\<forall>j<length (meshes v). ms ! j =
         (if j < i then meshes v ! j
          else (meshes v ! j)\<lparr>targetPosition := Some (T ! j),
                 targetRotation := L (T ! j) (Vector3 0 0 2500)\<rparr>))"
  using assms
proof (induction L T True i v rule: transitionLoop.induct)
  case (1 L T i v)
  show ?case
  proof (cases "i < length (meshes v)")
    case False
    have "transitionLoop L T True i v = Inr (v\<lparr>meshes := meshes v\<rparr>)"
      using False by (subst transitionLoop.simps) simp
    with False show ?thesis by (intro exI [of _ "meshes v"]) simp
  next
    case True
    with "1.prems" have ix: "index T i = Some (T ! i)" by (simp add: index_def)
    let ?m1 = "(meshes v ! i)\<lparr>targetPosition := index T i\<rparr>"
    let ?v1 = "v\<lparr>meshes := (meshes v)[i := ?m1]\<rparr>"
    let ?m2 = "(meshes v ! i)\<lparr>targetPosition := Some (T ! i),
                 targetRotation := L (T ! i) (Vector3 0 0 2500)\<rparr>"
    let ?v2 = "v\<lparr>meshes := (meshes v)[i := ?m2]\<rparr>"
    have v2: "?v1\<lparr>meshes := (meshes ?v1)[i := ?m1\<lparr>targetRotation := L (T ! i) (Vector3 0 0 2500)\<rparr>]\<rparr> = ?v2"
      by (simp add: ix)
    have step: "transitionLoop L T True i v = transitionLoop L T True (i + 1) ?v2"
      using True by (subst transitionLoop.simps) (simp add: Let_def ix)
    have "length (meshes ?v2) \<le> length T" using "1.prems" by simp
    from "1.hyps"(1) [OF True refl refl _ ix refl, unfolded v2, OF _ this]
    obtain ms where ms: "transitionLoop L T True (i + 1) ?v2 = Inr (?v2\<lparr>meshes := ms\<rparr>)"
      "length ms = length (meshes ?v2)"
      "\<forall>j<length (meshes ?v2). ms ! j =
         (if j < i + 1 then meshes ?v2 ! j
          else (meshes ?v2 ! j)\<lparr>targetPosition := Some (T ! j),
                 targetRotation := L (T ! j) (Vector3 0 0 2500)\<rparr>)"
      by auto
    have "\<forall>j<length (meshes v). ms ! j =
         (if j < i then meshes v ! j
          else (meshes v ! j)\<lparr>targetPosition := Some (T ! j),
                 targetRotation := L (T ! j) (Vector3 0 0 2500)\<rparr>)"
    proof (intro allI impI)
      fix j assume j: "j < length (meshes v)"
      with ms(3) have e: "ms ! j =
         (if j < i + 1 then meshes ?v2 ! j
          else (meshes ?v2 ! j)\<lparr>targetPosition := Some (T ! j),
                 targetRotation := L (T ! j) (Vector3 0 0 2500)\<rparr>)" by simp
      consider "j < i" | "j = i" | "i < j" by linarith
      then show "ms ! j =
         (if j < i then meshes v ! j
          else (meshes v ! j)\<lparr>targetPosition := Some (T ! j),
                 targetRotation := L (T ! j) (Vector3 0 0 2500)\<rparr>)"
        using e j by cases simp_all
    qed
    with ms(1,2) step show ?thesis by auto
  qed
qed

lemma transitionLoop_random:
  "\<exists>ms. transitionLoop L T False i v =
          Inr (v\<lparr>meshes := ms,
                 rng := (rng v)\<lparr>used := used (rng v) + 2 * (length (meshes v) - i)\<rparr>\<rparr>)
    \<and> length ms = length (meshes v)
    \<and> (\<forall>j<length (meshes v). ms ! j =
         (if j < i then meshes v ! j
          else (meshes v ! j)\<lparr>targetPosition := index T j,
                 targetRotation :=
                   Euler (draws (rng v) (used (rng v) + 2 * (j - i)) * pi)
                         (draws (rng v) (used (rng v) + 2 * (j - i) + 1) * pi) 0\<rparr>))"
proof (induction L T False i v rule: transitionLoop.induct)
  case (1 L T i v)
  show ?case
  proof (cases "i < length (meshes v)")
    case False
    have "transitionLoop L T False i v = Inr v"
      using False by (subst transitionLoop.simps) simp
    with False show ?thesis by (intro exI [of _ "meshes v"]) simp
  next
    case True
    let ?u = "used (rng v)"
    let ?m1 = "(meshes v ! i)\<lparr>targetPosition := index T i\<rparr>"
    let ?v1 = "v\<lparr>meshes := (meshes v)[i := ?m1]\<rparr>"
    let ?rot = "Euler (draws (rng v) ?u * pi) (draws (rng v) (?u + 1) * pi) 0"
    let ?m2 = "(meshes v ! i)\<lparr>targetPosition := index T i, targetRotation := ?rot\<rparr>"
    let ?r2 = "(rng v)\<lparr>used := ?u + 2\<rparr>"
    let ?v2 = "v\<lparr>meshes := (meshes v)[i := ?m2], rng := ?r2\<rparr>"
    have a: "Math_random (rng ?v1) = (draws (rng v) ?u, (rng v)\<lparr>used := Suc ?u\<rparr>)"
      by (simp add: Math_random_def)
    have b: "Math_random ((rng v)\<lparr>used := Suc ?u\<rparr>) = (draws (rng v) (?u + 1), ?r2)"
      by (simp add: Math_random_def)
    have v2: "?v1\<lparr>meshes := (meshes ?v1)[i := ?m1\<lparr>targetRotation := ?rot\<rparr>], rng := ?r2\<rparr> = ?v2"
      by simp
    have step: "transitionLoop L T False i v = transitionLoop L T False (i + 1) ?v2"
      using True by (subst transitionLoop.simps) (simp add: Let_def Math_random_def)
    from "1.hyps"(2) [OF True refl refl _ a [symmetric] refl b [symmetric] refl refl, unfolded v2]
    obtain ms where ms: "transitionLoop L T False (i + 1) ?v2 =
          Inr (?v2\<lparr>meshes := ms,
                 rng := (rng ?v2)\<lparr>used := used (rng ?v2) + 2 * (length (meshes ?v2) - (i + 1))\<rparr>\<rparr>)"
      "length ms = length (meshes ?v2)"
      "\<forall>j<length (meshes ?v2). ms ! j =
         (if j < i + 1 then meshes ?v2 ! j
          else (meshes ?v2 ! j)\<lparr>targetPosition := index T j,
                 targetRotation :=
                   Euler (draws (rng ?v2) (used (rng ?v2) + 2 * (j - (i + 1))) * pi)
                         (draws (rng ?v2) (used (rng ?v2) + 2 * (j - (i + 1)) + 1) * pi) 0\<rparr>)"
      by auto
    have u: "?u + 2 + 2 * (length (meshes v) - (i + 1)) = ?u + 2 * (length (meshes v) - i)"
      using True by simp
    have r: "transitionLoop L T False i v =
          Inr (v\<lparr>meshes := ms,
                 rng := (rng v)\<lparr>used := ?u + 2 * (length (meshes v) - i)\<rparr>\<rparr>)"
      using step ms(1) u by simp
    have "\<forall>j<length (meshes v). ms ! j =
         (if j < i then meshes v ! j
          else (meshes v ! j)\<lparr>targetPosition := index T j,
                 targetRotation :=
                   Euler (draws (rng v) (?u + 2 * (j - i)) * pi)
                         (draws (rng v) (?u + 2 * (j - i) + 1) * pi) 0\<rparr>)"
    proof (intro allI impI)
      fix j assume j: "j < length (meshes v)"
      with ms(3) have e: "ms ! j =
         (if j < i + 1 then meshes ?v2 ! j
          else (meshes ?v2 ! j)\<lparr>targetPosition := index T j,
                 targetRotation :=
                   Euler (draws (rng ?v2) (used (rng ?v2) + 2 * (j - (i + 1))) * pi)
                         (draws (rng ?v2) (used (rng ?v2) + 2 * (j - (i + 1)) + 1) * pi) 0\<rparr>)"
        by simp
      consider "j < i" | "j = i" | "i < j" by linarith
      then show "ms ! j =
         (if j < i then meshes v ! j
          else (meshes v ! j)\<lparr>targetPosition := index T j,
                 targetRotation :=
                   Euler (draws (rng v) (?u + 2 * (j - i)) * pi)
                         (draws (rng v) (?u + 2 * (j - i) + 1) * pi) 0\<rparr>)"
      proof cases
        case 1
        with e j show ?thesis by simp
      next
        case 2
        with e j show ?thesis by simp
      next
        case 3
        then obtain d where d: "j = Suc (i + d)" by (auto simp: less_iff_Suc_add)
        from e j show ?thesis unfolding d by (simp add: add.commute add.left_commute)
      qed
    qed
    with r ms(2) show ?thesis by auto
  qed
qed

lemma transitionTo_loop:
  "transitionTo L FIST v = transitionLoop L (tree (targets v)) True 0 v"
  "transitionTo L PINCH v = transitionLoop L (focus (targets v)) True 0 v"
  "transitionTo L OPEN_PALM v = transitionLoop L (scatter (targets v)) False 0 v"
  by (simp_all add: transitionTo_def)

lemma lookAt_all:
  assumes "length (meshes v) \<le> length T"
  shows "\<exists>ms. transitionLoop L T True 0 v = Inr (v\<lparr>meshes := ms\<rparr>)
    \<and> length ms = length (meshes v)
    \<and> (\<forall>j<length (meshes v). ms ! j =
          (meshes v ! j)\<lparr>targetPosition := Some (T ! j),
             targetRotation := L (T ! j) (Vector3 0 0 2500)\<rparr>)"
  using transitionLoop_lookAt [OF assms, of L 0] by simp

lemma random_all:
  assumes "length (meshes v) \<le> length T"
  shows "\<exists>ms. transitionLoop L T False 0 v =
          Inr (v\<lparr>meshes := ms,
                 rng := (rng v)\<lparr>used := used (rng v) + 2 * length (meshes v)\<rparr>\<rparr>)
    \<and> length ms = length (meshes v)
    \<and> (\<forall>j<length (meshes v). ms ! j =
          (meshes v ! j)\<lparr>targetPosition := Some (T ! j),
             targetRotation :=
               Euler (draws (rng v) (used (rng v) + 2 * j) * pi)
                     (draws (rng v) (used (rng v) + 2 * j + 1) * pi) 0\<rparr>)"
proof -
  from transitionLoop_random [of L T 0 v]
  obtain ms where ms: "transitionLoop L T False 0 v =
          Inr (v\<lparr>meshes := ms,
                 rng := (rng v)\<lparr>used := used (rng v) + 2 * length (meshes v)\<rparr>\<rparr>)"
    "length ms = length (meshes v)"
    "\<forall>j<length (meshes v). ms ! j =
          (meshes v ! j)\<lparr>targetPosition := index T j,
             targetRotation :=
               Euler (draws (rng v) (used (rng v) + 2 * j) * pi)
                     (draws (rng v) (used (rng v) + 2 * j + 1) * pi) 0\<rparr>"
    by auto
  have "\<forall>j<length (meshes v). ms ! j =
          (meshes v ! j)\<lparr>targetPosition := Some (T ! j),
             targetRotation :=
               Euler (draws (rng v) (used (rng v) + 2 * j) * pi)
                     (draws (rng v) (used (rng v) + 2 * j + 1) * pi) 0\<rparr>"
    using ms(3) assms by (simp add: index_def)
  with ms(1,2) show ?thesis by blast
qed

lemma draws_pi:
  assumes "0 \<le> (a::real) \<and> a < 1"
  shows "0 \<le> a * pi" and "a * pi < pi"
  using assms by simp_all

section \<open>The loops of createObjects\<close>

lemma treeLoop_closed:
  "treeLoop i v =
     v\<lparr>targets := (targets v)\<lparr>tree := tree (targets v)
        @ map (treePoint (imageCount v)) [i..<imageCount v]\<rparr>\<rparr>"
proof (induction i v rule: treeLoop.induct)
  case (1 i v)
  show ?case
  proof (cases "i < imageCount v")
    case False
    then show ?thesis by (subst treeLoop.simps) simp
  next
    case True
    let ?v = "v\<lparr>targets := (targets v)\<lparr>tree := tree (targets v)
        @ [treePoint (imageCount v) i]\<rparr>\<rparr>"
    have step: "treeLoop i v = treeLoop (i + 1) ?v"
      using True by (subst treeLoop.simps) (simp add: Let_def treePoint_def)
    have "treeLoop (i + 1) ?v =
       ?v\<lparr>targets := (targets ?v)\<lparr>tree := tree (targets ?v)
          @ map (treePoint (imageCount ?v)) [i + 1..<imageCount ?v]\<rparr>\<rparr>"
      using "1.IH" [OF True refl refl refl refl refl refl]
      by (simp add: treePoint_def Let_def)
    with step True show ?thesis by (simp add: upt_conv_Cons)
  qed
qed

lemma focusLoop_closed:
  "focusLoop i v =
     v\<lparr>targets := (targets v)\<lparr>focus := focus (targets v)
        @ map focusPoint [i..<imageCount v]\<rparr>\<rparr>"
proof (induction i v rule: focusLoop.induct)
  case (1 i v)
  show ?case
  proof (cases "i < imageCount v")
    case False
    then show ?thesis by (subst focusLoop.simps) simp
  next
    case True
    let ?v = "v\<lparr>targets := (targets v)\<lparr>focus := focus (targets v) @ [focusPoint i]\<rparr>\<rparr>"
    have step: "focusLoop i v = focusLoop (i + 1) ?v"
      using True by (subst focusLoop.simps) (simp add: Let_def focusPoint_def)
    have "focusLoop (i + 1) ?v =
       ?v\<lparr>targets := (targets ?v)\<lparr>focus := focus (targets ?v)
          @ map focusPoint [i + 1..<imageCount ?v]\<rparr>\<rparr>"
      using "1.IH" [OF True refl refl refl refl refl]
      by (simp add: focusPoint_def Let_def)
    with step True show ?thesis by (simp add: upt_conv_Cons)
  qed
qed

lemma scatter_point_inCube:
  assumes "0 \<le> a \<and> a < 1" and "0 \<le> b \<and> b < 1" and "0 \<le> c \<and> c < 1"
  shows "inCube (Vector3 (a * 4000 - 2000) (b * 4000 - 2000) (c * 4000 - 2000))"
  using assms by (simp add: inCube_def)

lemma scatterLoop_props:
  assumes "\<forall>k. 0 \<le> draws (rng v) k \<and> draws (rng v) k < 1"
  shows "\<exists>ps. scatterLoop i v =
           v\<lparr>targets := (targets v)\<lparr>scatter := scatter (targets v) @ ps\<rparr>,
              rng := (rng v)\<lparr>used := used (rng v) + 3 * (imageCount v - i)\<rparr>\<rparr>
         \<and> length ps = imageCount v - i \<and> (\<forall>p\<in>set ps. inCube p)"
  using assms
proof (induction i v rule: scatterLoop.induct)
  case (1 i v)
  show ?case
  proof (cases "i < imageCount v")
    case False
    have "scatterLoop i v = v" using False by (subst scatterLoop.simps) simp
    with False show ?thesis by (intro exI [of _ "[]"]) simp
  next
    case True
    let ?u = "used (rng v)"
    let ?d = "draws (rng v)"
    let ?p = "Vector3 (?d ?u * 4000 - 2000) (?d (?u + 1) * 4000 - 2000) (?d (?u + 2) * 4000 - 2000)"
    let ?r1 = "(rng v)\<lparr>used := Suc ?u\<rparr>"
    let ?r2 = "(rng v)\<lparr>used := Suc (Suc ?u)\<rparr>"
    let ?r3 = "(rng v)\<lparr>used := Suc (Suc (Suc ?u))\<rparr>"
    let ?v = "v\<lparr>targets := (targets v)\<lparr>scatter := scatter (targets v) @ [?p]\<rparr>, rng := ?r3\<rparr>"
    have a: "Math_random (rng v) = (?d ?u, ?r1)" by (simp add: Math_random_def)
    have b: "Math_random ?r1 = (?d (?u + 1), ?r2)" by (simp add: Math_random_def)
    have c: "Math_random ?r2 = (?d (?u + 2), ?r3)" by (simp add: Math_random_def)
    have step: "scatterLoop i v = scatterLoop (i + 1) ?v"
      using True by (subst scatterLoop.simps) (simp add: Let_def Math_random_def)
    have pre: "\<forall>k. 0 \<le> draws (rng ?v) k \<and> draws (rng ?v) k < 1" using "1.prems" by simp
    from "1.IH" [OF True a [symmetric] refl refl b [symmetric] refl refl c [symmetric] refl refl]
    have "\<exists>ps. scatterLoop (i + 1) ?v =
           ?v\<lparr>targets := (targets ?v)\<lparr>scatter := scatter (targets ?v) @ ps\<rparr>,
              rng := (rng ?v)\<lparr>used := used (rng ?v) + 3 * (imageCount ?v - (i + 1))\<rparr>\<rparr>
         \<and> length ps = imageCount ?v - (i + 1) \<and> (\<forall>p\<in>set ps. inCube p)"
      using pre by simp
    then obtain ps where ps: "scatterLoop (i + 1) ?v =
           ?v\<lparr>targets := (targets ?v)\<lparr>scatter := scatter (targets ?v) @ ps\<rparr>,
              rng := (rng ?v)\<lparr>used := used (rng ?v) + 3 * (imageCount ?v - (i + 1))\<rparr>\<rparr>"
      "length ps = imageCount ?v - (i + 1)" "\<forall>p\<in>set ps. inCube p"
      by blast
    have u: "Suc (Suc (Suc ?u)) + 3 * (imageCount v - (i + 1)) = ?u + 3 * (imageCount v - i)"
      using True by simp
    have cube: "inCube ?p"
      using "1.prems" by (intro scatter_point_inCube) simp_all
    have "scatterLoop i v =
           v\<lparr>targets := (targets v)\<lparr>scatter := scatter (targets v) @ (?p # ps)\<rparr>,
              rng := (rng v)\<lparr>used := ?u + 3 * (imageCount v - i)\<rparr>\<rparr>"
      using step ps(1) u by simp
    moreover have "length (?p # ps) = imageCount v - i" using ps(2) True by simp
    moreover have "\<forall>p\<in>set (?p # ps). inCube p" using ps(3) cube by simp
    ultimately show ?thesis by blast
  qed
qed

lemma meshLoop_props:
  assumes "imageCount v \<le> length (scatter (targets v))"
  shows "\<exists>ms. meshLoop i v =
           Inr (v\<lparr>meshes := meshes v @ ms,
                  rng := (rng v)\<lparr>used := used (rng v) + 2 * (imageCount v - i)\<rparr>\<rparr>)
         \<and> length ms = imageCount v - i \<and> None \<notin> set (map targetPosition ms)"
  using assms
proof (induction i v rule: meshLoop.induct)
  case (1 i v)
  show ?case
  proof (cases "i < imageCount v")
    case False
    have "meshLoop i v = Inr v" using False by (subst meshLoop.simps) simp
    with False show ?thesis by (intro exI [of _ "[]"]) simp
  next
    case True
    let ?u = "used (rng v)"
    let ?d = "draws (rng v)"
    let ?p = "scatter (targets v) ! i"
    let ?m = "\<lparr>position = ?p, rotation = Euler (?d ?u * pi) (?d (Suc ?u) * pi) 0,
                targetPosition = Some ?p, targetRotation = Euler 0 0 0\<rparr>"
    let ?r1 = "(rng v)\<lparr>used := Suc ?u\<rparr>"
    let ?r2 = "(rng v)\<lparr>used := Suc (Suc ?u)\<rparr>"
    let ?v = "v\<lparr>meshes := meshes v @ [?m], rng := ?r2\<rparr>"
    from True "1.prems" have ix: "index (scatter (targets v)) i = Some ?p"
      by (simp add: index_def)
    have a: "Math_random (rng v) = (?d ?u, ?r1)" by (simp add: Math_random_def)
    have b: "Math_random ?r1 = (?d (Suc ?u), ?r2)" by (simp add: Math_random_def)
    have step: "meshLoop i v = meshLoop (i + 1) ?v"
      using True by (subst meshLoop.simps) (simp add: Let_def Math_random_def ix)
    have pre: "imageCount ?v \<le> length (scatter (targets ?v))" using "1.prems" by simp
    from "1.IH" [OF True ix a [symmetric] refl b [symmetric] refl refl]
    have "\<exists>ms. meshLoop (i + 1) ?v =
           Inr (?v\<lparr>meshes := meshes ?v @ ms,
                  rng := (rng ?v)\<lparr>used := used (rng ?v) + 2 * (imageCount ?v - (i + 1))\<rparr>\<rparr>)
         \<and> length ms = imageCount ?v - (i + 1) \<and> None \<notin> set (map targetPosition ms)"
      using pre by simp
    then obtain ms where ms: "meshLoop (i + 1) ?v =
           Inr (?v\<lparr>meshes := meshes ?v @ ms,
                  rng := (rng ?v)\<lparr>used := used (rng ?v) + 2 * (imageCount ?v - (i + 1))\<rparr>\<rparr>)"
      "length ms = imageCount ?v - (i + 1)" "None \<notin> set (map targetPosition ms)"
      by blast
    have u: "Suc (Suc ?u) + 2 * (imageCount v - (i + 1)) = ?u + 2 * (imageCount v - i)"
      using True by simp
    have "meshLoop i v =
           Inr (v\<lparr>meshes := meshes v @ (?m # ms),
                  rng := (rng v)\<lparr>used := ?u + 2 * (imageCount v - i)\<rparr>\<rparr>)"
      using step ms(1) u by simp
    moreover have "length (?m # ms) = imageCount v - i" using ms(2) True by simp
    moreover have "None \<notin> set (map targetPosition (?m # ms))" using ms(3) by simp
    ultimately show ?thesis by blast
  qed
qed

lemma createObjects_props:
  assumes "\<forall>k. 0 \<le> draws (rng v) k \<and> draws (rng v) k < 1"
  shows "\<exists>ps ms. createObjects v =
           Inr (v\<lparr>meshes := meshes v @ ms,
                  targets :=
                    \<lparr>scatter = scatter (targets v) @ ps,
                     tree = tree (targets v) @ map (treePoint (imageCount v)) [0..<imageCount v],
                     focus = focus (targets v) @ map focusPoint [0..<imageCount v]\<rparr>,
                  rng := (rng v)\<lparr>used := used (rng v) + 5 * imageCount v\<rparr>\<rparr>)
         \<and> length ps = imageCount v \<and> (\<forall>p\<in>set ps. inCube p)
         \<and> length ms = imageCount v \<and> None \<notin> set (map targetPosition ms)"
proof -
  from scatterLoop_props [OF assms, of 0]
  obtain ps where ps: "scatterLoop 0 v =
           v\<lparr>targets := (targets v)\<lparr>scatter := scatter (targets v) @ ps\<rparr>,
              rng := (rng v)\<lparr>used := used (rng v) + 3 * imageCount v\<rparr>\<rparr>"
      "length ps = imageCount v" "\<forall>p\<in>set ps. inCube p"
    by auto
  let ?v3 = "focusLoop 0 (treeLoop 0 (scatterLoop 0 v))"
  have v3: "?v3 = v\<lparr>targets :=
                    \<lparr>scatter = scatter (targets v) @ ps,
                     tree = tree (targets v) @ map (treePoint (imageCount v)) [0..<imageCount v],
                     focus = focus (targets v) @ map focusPoint [0..<imageCount v]\<rparr>,
                  rng := (rng v)\<lparr>used := used (rng v) + 3 * imageCount v\<rparr>\<rparr>"
    by (simp add: ps(1) treeLoop_closed focusLoop_closed)
  have "imageCount ?v3 \<le> length (scatter (targets ?v3))"
    by (simp add: v3 ps(2))
  from meshLoop_props [OF this, of 0]
  obtain ms where ms: "meshLoop 0 ?v3 =
           Inr (?v3\<lparr>meshes := meshes ?v3 @ ms,
                  rng := (rng ?v3)\<lparr>used := used (rng ?v3) + 2 * (imageCount ?v3 - 0)\<rparr>\<rparr>)"
      "length ms = imageCount ?v3 - 0" "None \<notin> set (map targetPosition ms)"
    by blast
  have "createObjects v =
           Inr (v\<lparr>meshes := meshes v @ ms,
                  targets :=
                    \<lparr>scatter = scatter (targets v) @ ps,
                     tree = tree (targets v) @ map (treePoint (imageCount v)) [0..<imageCount v],
                     focus = focus (targets v) @ map focusPoint [0..<imageCount v]\<rparr>,
                  rng := (rng v)\<lparr>used := used (rng v) + 5 * imageCount v\<rparr>\<rparr>)"
    unfolding createObjects_def ms(1) by (simp add: v3)
  moreover have "length ms = imageCount v" using ms(2) by (simp add: v3)
  ultimately show ?thesis using ps(2,3) ms(3) by blast
qed

lemma meshLoop_targets: "meshLoop i v = Inr b \<Longrightarrow> targets b = targets v"
proof (induction i v rule: meshLoop.induct)
  case (1 i v)
  show ?case
  proof (cases "i < imageCount v")
    case False
    with "1.prems" show ?thesis by (subst (asm) meshLoop.simps) simp
  next
    case True
    show ?thesis
    proof (cases "index (scatter (targets v)) i")
      case None
      with True "1.prems" show ?thesis by (subst (asm) meshLoop.simps) simp
    next
      case (Some p)
      let ?u = "used (rng v)"
      let ?d = "draws (rng v)"
      let ?m = "\<lparr>position = p, rotation = Euler (?d ?u * pi) (?d (Suc ?u) * pi) 0,
                targetPosition = Some p, targetRotation = Euler 0 0 0\<rparr>"
      let ?r1 = "(rng v)\<lparr>used := Suc ?u\<rparr>"
      let ?r2 = "(rng v)\<lparr>used := Suc (Suc ?u)\<rparr>"
      let ?v = "v\<lparr>meshes := meshes v @ [?m], rng := ?r2\<rparr>"
      have a: "Math_random (rng v) = (?d ?u, ?r1)" by (simp add: Math_random_def)
      have b: "Math_random ?r1 = (?d (Suc ?u), ?r2)" by (simp add: Math_random_def)
      have "meshLoop i v = meshLoop (i + 1) ?v"
        using True by (subst meshLoop.simps) (simp add: Let_def Math_random_def Some)
      with "1.prems" have "meshLoop (i + 1) ?v = Inr b" by simp
      from "1.IH" [OF True Some a [symmetric] refl b [symmetric] refl refl this]
      show ?thesis by simp
    qed
  qed
qed

lemma createObjects_scatter:
  "createObjects v = Inr b \<Longrightarrow> scatter (targets b) = scatter (targets (scatterLoop 0 v))"
  by (auto simp: createObjects_def treeLoop_closed focusLoop_closed dest!: meshLoop_targets)

section \<open>Transitions\<close>

text \<open>
  C7. Processing the gesture \<open>NONE\<close> returns the component as it is: no target position,
  no target rotation and no other field changes.
\<close>

theorem none_is_a_no_op: "transitionTo lookAt NONE v = Inr v"
  by (simp add: transitionTo_def)

text \<open>
  C5. In a component whose formations have a point for every mesh, a transition for a
  gesture other than \<open>NONE\<close> returns, and gives every mesh \<open>i\<close> the point \<open>i\<close> of the
  selected formation as its target position: the tree for \<open>FIST\<close> and the focus for
  \<open>PINCH\<close>, both with the target rotation that \<^verbatim>\<open>lookAt\<close> gives an object at that point
  facing \<open>(0, 0, 2500)\<close>, and the scatter for \<open>OPEN_PALM\<close>, with a target rotation whose
  \<open>x\<close> and \<open>y\<close> are the next two random numbers times \<open>\<pi>\<close>.
\<close>

theorem transition_assigns_formation:
  assumes "length (meshes v) \<le> length (scatter (targets v))"
    and "length (meshes v) \<le> length (tree (targets v))"
    and "length (meshes v) \<le> length (focus (targets v))"
    and "gesture \<noteq> NONE"
  shows "\<exists>ms r. transitionTo lookAt gesture v = Inr (v\<lparr>meshes := ms, rng := r\<rparr>)
    \<and> length ms = length (meshes v)
    \<and> (\<forall>i<length (meshes v).
          (gesture = FIST \<longrightarrow>
             targetPosition (ms ! i) = Some (tree (targets v) ! i)
             \<and> targetRotation (ms ! i) = lookAt (tree (targets v) ! i) (Vector3 0 0 2500))
          \<and> (gesture = PINCH \<longrightarrow>
             targetPosition (ms ! i) = Some (focus (targets v) ! i)
             \<and> targetRotation (ms ! i) = lookAt (focus (targets v) ! i) (Vector3 0 0 2500))
          \<and> (gesture = OPEN_PALM \<longrightarrow>
             targetPosition (ms ! i) = Some (scatter (targets v) ! i)
             \<and> targetRotation (ms ! i) =
                 Euler (draws (rng v) (used (rng v) + 2 * i) * pi)
                       (draws (rng v) (used (rng v) + 2 * i + 1) * pi) 0))"
proof (cases gesture)
  case NONE
  with assms(4) show ?thesis by simp
next
  case OPEN_PALM
  from random_all [OF assms(1), of lookAt]
  obtain ms where ms: "transitionLoop lookAt (scatter (targets v)) False 0 v =
          Inr (v\<lparr>meshes := ms,
                 rng := (rng v)\<lparr>used := used (rng v) + 2 * length (meshes v)\<rparr>\<rparr>)"
    "length ms = length (meshes v)"
    "\<forall>j<length (meshes v). ms ! j =
          (meshes v ! j)\<lparr>targetPosition := Some (scatter (targets v) ! j),
             targetRotation :=
               Euler (draws (rng v) (used (rng v) + 2 * j) * pi)
                     (draws (rng v) (used (rng v) + 2 * j + 1) * pi) 0\<rparr>"
    by blast
  show ?thesis
    by (rule exI [of _ ms],
        rule exI [of _ "(rng v)\<lparr>used := used (rng v) + 2 * length (meshes v)\<rparr>"])
      (simp add: OPEN_PALM transitionTo_loop ms)
next
  case FIST
  from lookAt_all [OF assms(2), of lookAt]
  obtain ms where ms: "transitionLoop lookAt (tree (targets v)) True 0 v = Inr (v\<lparr>meshes := ms\<rparr>)"
    "length ms = length (meshes v)"
    "\<forall>j<length (meshes v). ms ! j =
          (meshes v ! j)\<lparr>targetPosition := Some (tree (targets v) ! j),
             targetRotation := lookAt (tree (targets v) ! j) (Vector3 0 0 2500)\<rparr>"
    by blast
  show ?thesis
    by (rule exI [of _ ms], rule exI [of _ "rng v"]) (simp add: FIST transitionTo_loop ms)
next
  case PINCH
  from lookAt_all [OF assms(3), of lookAt]
  obtain ms where ms: "transitionLoop lookAt (focus (targets v)) True 0 v = Inr (v\<lparr>meshes := ms\<rparr>)"
    "length ms = length (meshes v)"
    "\<forall>j<length (meshes v). ms ! j =
          (meshes v ! j)\<lparr>targetPosition := Some (focus (targets v) ! j),
             targetRotation := lookAt (focus (targets v) ! j) (Vector3 0 0 2500)\<rparr>"
    by blast
  show ?thesis
    by (rule exI [of _ ms], rule exI [of _ "rng v"]) (simp add: PINCH transitionTo_loop ms)
qed

theorem transition_assigns_formation_witness:
  "length (meshes demoVisualizer) \<le> length (scatter (targets demoVisualizer))
   \<and> length (meshes demoVisualizer) \<le> length (tree (targets demoVisualizer))
   \<and> length (meshes demoVisualizer) \<le> length (focus (targets demoVisualizer))
   \<and> FIST \<noteq> NONE
   \<and> (\<exists>ms r. transitionTo demoLookAt FIST demoVisualizer =
                Inr (demoVisualizer\<lparr>meshes := ms, rng := r\<rparr>)
        \<and> length ms = 2
        \<and> targetPosition (ms ! 0) = Some (Vector3 0 (- 500) 0)
        \<and> targetRotation (ms ! 0) = Euler 0 500 2500
        \<and> targetPosition (ms ! 1) = Some (Vector3 100 (- 480) 200)
        \<and> targetRotation (ms ! 1) = Euler (- 100) 480 2300)"
proof -
  have h: "length (meshes demoVisualizer) \<le> length (scatter (targets demoVisualizer))"
    "length (meshes demoVisualizer) \<le> length (tree (targets demoVisualizer))"
    "length (meshes demoVisualizer) \<le> length (focus (targets demoVisualizer))"
    "FIST \<noteq> NONE"
    by (simp_all add: demoVisualizer_def)
  from transition_assigns_formation [OF h, of demoLookAt]
  obtain ms r where ms:
    "transitionTo demoLookAt FIST demoVisualizer = Inr (demoVisualizer\<lparr>meshes := ms, rng := r\<rparr>)"
    "length ms = length (meshes demoVisualizer)"
    "\<forall>i<length (meshes demoVisualizer).
       targetPosition (ms ! i) = Some (tree (targets demoVisualizer) ! i)
       \<and> targetRotation (ms ! i) = demoLookAt (tree (targets demoVisualizer) ! i) (Vector3 0 0 2500)"
    by auto
  have l: "length (meshes demoVisualizer) = 2" by (simp add: demoVisualizer_def)
  from ms(3) have "targetPosition (ms ! 0) = Some (tree (targets demoVisualizer) ! 0)
       \<and> targetRotation (ms ! 0) = demoLookAt (tree (targets demoVisualizer) ! 0) (Vector3 0 0 2500)"
    "targetPosition (ms ! 1) = Some (tree (targets demoVisualizer) ! 1)
       \<and> targetRotation (ms ! 1) = demoLookAt (tree (targets demoVisualizer) ! 1) (Vector3 0 0 2500)"
    unfolding l by simp_all
  then have "targetPosition (ms ! 0) = Some (Vector3 0 (- 500) 0)"
    "targetRotation (ms ! 0) = Euler 0 500 2500"
    "targetPosition (ms ! 1) = Some (Vector3 100 (- 480) 200)"
    "targetRotation (ms ! 1) = Euler (- 100) 480 2300"
    by (simp_all add: demoVisualizer_def demoLookAt_def)
  with ms(1,2) l h show ?thesis by auto
qed

text \<open>After a gesture has been processed, the signal holds it and the effect has run.\<close>

lemma processGesture_settled:
  "activeGesture (componentState (processGesture lookAt g c)) = g
   \<and> \<not> effectDirty (componentState (processGesture lookAt g c))"
  by (auto simp: processGesture_def flushEffects_def signalSet_def effectBody_def
      componentState_def Let_def split: sum.splits)

lemma processGesture_same:
  "activeGesture c = g \<Longrightarrow> \<not> effectDirty c \<Longrightarrow> processGesture lookAt g c = Inr c"
  by (simp add: processGesture_def flushEffects_def signalSet_def)

lemma demo_open_palm: "transitionTo demoLookAt OPEN_PALM demoVisualizer = Inr demoOnce"
  by (simp add: transitionTo_def demoVisualizer_def demoOnce_def demoRandom_def
      transitionLoop.simps Math_random_def index_def)

text \<open>
  C6. Processing the same gesture twice in a row changes nothing the second time: the
  signal already holds the gesture, so the effect does not run and \<^verbatim>\<open>transitionTo\<close>
  is not called. The whole component, with every target position and target rotation, is
  as the first processing left it, whether that returned or threw.
\<close>

theorem repeated_gesture_is_idempotent:
  "processGesture lookAt g (componentState (processGesture lookAt g c)) =
     Inr (componentState (processGesture lookAt g c))"
  using processGesture_settled [of lookAt g c] by (simp add: processGesture_same)

theorem repeated_gesture_is_idempotent_witness:
  "processGesture demoLookAt OPEN_PALM demoComponent =
     Inr \<lparr>activeGesture = OPEN_PALM, effectDirty = False, visualizer = demoOnce\<rparr>
   \<and> visualizer demoComponent \<noteq> demoOnce
   \<and> processGesture demoLookAt OPEN_PALM
        \<lparr>activeGesture = OPEN_PALM, effectDirty = False, visualizer = demoOnce\<rparr> =
     Inr \<lparr>activeGesture = OPEN_PALM, effectDirty = False, visualizer = demoOnce\<rparr>"
proof -
  have first: "processGesture demoLookAt OPEN_PALM demoComponent =
     Inr \<lparr>activeGesture = OPEN_PALM, effectDirty = False, visualizer = demoOnce\<rparr>"
    by (simp add: processGesture_def flushEffects_def signalSet_def effectBody_def
        demoComponent_def demo_open_palm)
  have "visualizer demoComponent \<noteq> demoOnce"
    by (simp add: demoComponent_def demoVisualizer_def demoOnce_def demoRandom_def)
  with repeated_gesture_is_idempotent [of demoLookAt OPEN_PALM demoComponent] first
  show ?thesis by (simp add: componentState_def)
qed

text \<open>
  C10. A transition to \<open>OPEN_PALM\<close> returns, and gives every mesh \<open>i\<close> a target rotation whose
  \<open>z\<close> is \<open>0\<close> and whose \<open>x\<close> and \<open>y\<close> are the next two random numbers times \<open>\<pi>\<close>, so that both
  lie in \<open>[0, \<pi>)\<close> when \<^verbatim>\<open>Math.random()\<close> returns numbers in \<open>[0, 1)\<close>.
\<close>

theorem open_palm_rotations:
  assumes "\<forall>k. 0 \<le> draws (rng v) k \<and> draws (rng v) k < 1"
  shows "\<exists>ms r. transitionTo lookAt OPEN_PALM v = Inr (v\<lparr>meshes := ms, rng := r\<rparr>)
    \<and> length ms = length (meshes v)
    \<and> (\<forall>i<length (meshes v).
          targetRotation (ms ! i) =
            Euler (draws (rng v) (used (rng v) + 2 * i) * pi)
                  (draws (rng v) (used (rng v) + 2 * i + 1) * pi) 0
          \<and> ez (targetRotation (ms ! i)) = 0
          \<and> 0 \<le> ex (targetRotation (ms ! i)) \<and> ex (targetRotation (ms ! i)) < pi
          \<and> 0 \<le> ey (targetRotation (ms ! i)) \<and> ey (targetRotation (ms ! i)) < pi)"
proof -
  from transitionLoop_random [of lookAt "scatter (targets v)" 0 v]
  obtain ms where ms: "transitionLoop lookAt (scatter (targets v)) False 0 v =
          Inr (v\<lparr>meshes := ms,
                 rng := (rng v)\<lparr>used := used (rng v) + 2 * length (meshes v)\<rparr>\<rparr>)"
    "length ms = length (meshes v)"
    "\<forall>j<length (meshes v). ms ! j =
          (meshes v ! j)\<lparr>targetPosition := index (scatter (targets v)) j,
             targetRotation :=
               Euler (draws (rng v) (used (rng v) + 2 * j) * pi)
                     (draws (rng v) (used (rng v) + 2 * j + 1) * pi) 0\<rparr>"
    by auto
  have "\<forall>i<length (meshes v).
          targetRotation (ms ! i) =
            Euler (draws (rng v) (used (rng v) + 2 * i) * pi)
                  (draws (rng v) (used (rng v) + 2 * i + 1) * pi) 0
          \<and> ez (targetRotation (ms ! i)) = 0
          \<and> 0 \<le> ex (targetRotation (ms ! i)) \<and> ex (targetRotation (ms ! i)) < pi
          \<and> 0 \<le> ey (targetRotation (ms ! i)) \<and> ey (targetRotation (ms ! i)) < pi"
  proof (intro allI impI)
    fix i assume "i < length (meshes v)"
    with ms(3) have e: "targetRotation (ms ! i) =
            Euler (draws (rng v) (used (rng v) + 2 * i) * pi)
                  (draws (rng v) (used (rng v) + 2 * i + 1) * pi) 0"
      by simp
    note a = draws_pi [OF assms [rule_format, of "used (rng v) + 2 * i"]]
    note b = draws_pi [OF assms [rule_format, of "used (rng v) + 2 * i + 1"]]
    show "targetRotation (ms ! i) =
            Euler (draws (rng v) (used (rng v) + 2 * i) * pi)
                  (draws (rng v) (used (rng v) + 2 * i + 1) * pi) 0
          \<and> ez (targetRotation (ms ! i)) = 0
          \<and> 0 \<le> ex (targetRotation (ms ! i)) \<and> ex (targetRotation (ms ! i)) < pi
          \<and> 0 \<le> ey (targetRotation (ms ! i)) \<and> ey (targetRotation (ms ! i)) < pi"
      unfolding e using a b by simp
  qed
  with ms(1,2) show ?thesis
    unfolding transitionTo_loop by blast
qed

theorem open_palm_rotations_witness:
  "(\<forall>k. 0 \<le> draws (rng demoVisualizer) k \<and> draws (rng demoVisualizer) k < 1)
   \<and> transitionTo demoLookAt OPEN_PALM demoVisualizer = Inr demoOnce
   \<and> (\<exists>ms r. transitionTo demoLookAt OPEN_PALM demoVisualizer =
                Inr (demoVisualizer\<lparr>meshes := ms, rng := r\<rparr>)
        \<and> length ms = 2
        \<and> targetRotation (ms ! 0) = Euler (1 / 2 * pi) (1 / 3 * pi) 0
        \<and> targetRotation (ms ! 1) = Euler (1 / 4 * pi) (1 / 5 * pi) 0
        \<and> ez (targetRotation (ms ! 1)) = 0
        \<and> 0 \<le> ex (targetRotation (ms ! 1)) \<and> ex (targetRotation (ms ! 1)) < pi)"
proof -
  have h: "\<forall>k. 0 \<le> draws (rng demoVisualizer) k \<and> draws (rng demoVisualizer) k < 1"
    by (simp add: demoVisualizer_def demoRandom_def)
  have e: "transitionTo demoLookAt OPEN_PALM demoVisualizer = Inr demoOnce"
    by (simp add: transitionTo_def demoVisualizer_def demoOnce_def demoRandom_def
        transitionLoop.simps Math_random_def index_def)
  have l: "length (meshes demoVisualizer) = 2" by (simp add: demoVisualizer_def)
  from open_palm_rotations [OF h, of demoLookAt]
  obtain ms r where ms:
    "transitionTo demoLookAt OPEN_PALM demoVisualizer = Inr (demoVisualizer\<lparr>meshes := ms, rng := r\<rparr>)"
    "length ms = length (meshes demoVisualizer)"
    "\<forall>i<length (meshes demoVisualizer).
          targetRotation (ms ! i) =
            Euler (draws (rng demoVisualizer) (used (rng demoVisualizer) + 2 * i) * pi)
                  (draws (rng demoVisualizer) (used (rng demoVisualizer) + 2 * i + 1) * pi) 0
          \<and> ez (targetRotation (ms ! i)) = 0
          \<and> 0 \<le> ex (targetRotation (ms ! i)) \<and> ex (targetRotation (ms ! i)) < pi
          \<and> 0 \<le> ey (targetRotation (ms ! i)) \<and> ey (targetRotation (ms ! i)) < pi"
    by blast
  have zero: "0 < length (meshes demoVisualizer)" and one: "1 < length (meshes demoVisualizer)"
    by (simp_all add: l)
  have i0: "targetRotation (ms ! 0) =
            Euler (draws (rng demoVisualizer) (used (rng demoVisualizer) + 2 * 0) * pi)
                  (draws (rng demoVisualizer) (used (rng demoVisualizer) + 2 * 0 + 1) * pi) 0"
    using ms(3) [rule_format, OF zero] by blast
  have i1: "targetRotation (ms ! 1) =
            Euler (draws (rng demoVisualizer) (used (rng demoVisualizer) + 2 * 1) * pi)
                  (draws (rng demoVisualizer) (used (rng demoVisualizer) + 2 * 1 + 1) * pi) 0
          \<and> ez (targetRotation (ms ! 1)) = 0
          \<and> 0 \<le> ex (targetRotation (ms ! 1)) \<and> ex (targetRotation (ms ! 1)) < pi"
    using ms(3) [rule_format, OF one] by blast
  have f: "targetRotation (ms ! 0) = Euler (1 / 2 * pi) (1 / 3 * pi) 0"
    "targetRotation (ms ! 1) = Euler (1 / 4 * pi) (1 / 5 * pi) 0"
    using i0 i1 by (simp_all add: demoVisualizer_def demoRandom_def)
  have g: "ez (targetRotation (ms ! 1)) = 0" "0 \<le> ex (targetRotation (ms ! 1))"
    "ex (targetRotation (ms ! 1)) < pi"
    using i1 by blast+
  have "length ms = 2" using ms(2) l by simp
  with ms(1) f g have "\<exists>ms r. transitionTo demoLookAt OPEN_PALM demoVisualizer =
                Inr (demoVisualizer\<lparr>meshes := ms, rng := r\<rparr>)
        \<and> length ms = 2
        \<and> targetRotation (ms ! 0) = Euler (1 / 2 * pi) (1 / 3 * pi) 0
        \<and> targetRotation (ms ! 1) = Euler (1 / 4 * pi) (1 / 5 * pi) 0
        \<and> ez (targetRotation (ms ! 1)) = 0
        \<and> 0 \<le> ex (targetRotation (ms ! 1)) \<and> ex (targetRotation (ms ! 1)) < pi"
    by (intro exI [of _ ms] exI [of _ r] conjI)
  with h e show ?thesis by (intro conjI)
qed

text \<open>
  C9. From the field initialisers and any number \<open>n\<close> of images, over any two random
  sources with numbers in \<open>[0, 1)\<close>, \<^verbatim>\<open>createObjects\<close> returns; the two runs build the
  same tree, of \<open>n\<close> points, and the scatter has exactly \<open>n\<close> points, all with every
  coordinate between \<open>-2000\<close> and \<open>2000\<close>.
\<close>

theorem formation_generators:
  assumes "\<forall>k. 0 \<le> draws r k \<and> draws r k < 1"
    and "\<forall>k. 0 \<le> draws r' k \<and> draws r' k < 1"
  shows "\<exists>v w. createObjects ((initialVisualizer r)\<lparr>imageCount := n\<rparr>) = Inr v
    \<and> createObjects ((initialVisualizer r')\<lparr>imageCount := n\<rparr>) = Inr w
    \<and> tree (targets v) = tree (targets w)
    \<and> length (tree (targets v)) = n
    \<and> length (scatter (targets v)) = n
    \<and> (\<forall>p\<in>set (scatter (targets v)). inCube p)"
proof -
  let ?a = "(initialVisualizer r)\<lparr>imageCount := n\<rparr>"
  let ?b = "(initialVisualizer r')\<lparr>imageCount := n\<rparr>"
  have ra: "\<forall>k. 0 \<le> draws (rng ?a) k \<and> draws (rng ?a) k < 1"
    using assms(1) by (simp add: initialVisualizer_def)
  have rb: "\<forall>k. 0 \<le> draws (rng ?b) k \<and> draws (rng ?b) k < 1"
    using assms(2) by (simp add: initialVisualizer_def)
  from createObjects_props [OF ra]
  obtain ps ms where a: "createObjects ?a =
           Inr (?a\<lparr>meshes := meshes ?a @ ms,
                  targets :=
                    \<lparr>scatter = scatter (targets ?a) @ ps,
                     tree = tree (targets ?a) @ map (treePoint (imageCount ?a)) [0..<imageCount ?a],
                     focus = focus (targets ?a) @ map focusPoint [0..<imageCount ?a]\<rparr>,
                  rng := (rng ?a)\<lparr>used := used (rng ?a) + 5 * imageCount ?a\<rparr>\<rparr>)"
    "length ps = imageCount ?a" "\<forall>p\<in>set ps. inCube p"
    by blast
  from createObjects_props [OF rb]
  obtain ps' ms' where b: "createObjects ?b =
           Inr (?b\<lparr>meshes := meshes ?b @ ms',
                  targets :=
                    \<lparr>scatter = scatter (targets ?b) @ ps',
                     tree = tree (targets ?b) @ map (treePoint (imageCount ?b)) [0..<imageCount ?b],
                     focus = focus (targets ?b) @ map focusPoint [0..<imageCount ?b]\<rparr>,
                  rng := (rng ?b)\<lparr>used := used (rng ?b) + 5 * imageCount ?b\<rparr>\<rparr>)"
    by blast
  show ?thesis
    unfolding a(1) b
    using a(2,3) by (simp add: initialVisualizer_def)
qed

theorem formation_generators_witness:
  "(\<forall>k. 0 \<le> draws demoRandom k \<and> draws demoRandom k < 1)
   \<and> (\<forall>k. 0 \<le> draws (demoRandom\<lparr>used := 7\<rparr>) k \<and> draws (demoRandom\<lparr>used := 7\<rparr>) k < 1)
   \<and> (\<exists>v w. createObjects ((initialVisualizer demoRandom)\<lparr>imageCount := 2\<rparr>) = Inr v
        \<and> createObjects ((initialVisualizer (demoRandom\<lparr>used := 7\<rparr>))\<lparr>imageCount := 2\<rparr>) = Inr w
        \<and> tree (targets v) = tree (targets w)
        \<and> length (tree (targets v)) = 2
        \<and> length (scatter (targets v)) = 2
        \<and> scatter (targets v) =
            [Vector3 0 (- 2000 / 3) (- 1000), Vector3 (- 1200) (- 4000 / 3) (- 10000 / 7)]
        \<and> scatter (targets w) =
            [Vector3 (- 14000 / 9) (- 1600) (- 18000 / 11),
             Vector3 (- 5000 / 3) (- 22000 / 13) (- 12000 / 7)])"
proof -
  have h1: "\<forall>k. 0 \<le> draws demoRandom k \<and> draws demoRandom k < 1"
    by (simp add: demoRandom_def)
  have h2: "\<forall>k. 0 \<le> draws (demoRandom\<lparr>used := 7\<rparr>) k \<and> draws (demoRandom\<lparr>used := 7\<rparr>) k < 1"
    by (simp add: demoRandom_def)
  from formation_generators [OF h1 h2, of 2]
  obtain v w where vw:
    "createObjects ((initialVisualizer demoRandom)\<lparr>imageCount := 2\<rparr>) = Inr v"
    "createObjects ((initialVisualizer (demoRandom\<lparr>used := 7\<rparr>))\<lparr>imageCount := 2\<rparr>) = Inr w"
    "tree (targets v) = tree (targets w)"
    "length (tree (targets v)) = 2"
    "length (scatter (targets v)) = 2"
    by blast
  have s1: "scatter (targets (scatterLoop 0 ((initialVisualizer demoRandom)\<lparr>imageCount := 2\<rparr>))) =
            [Vector3 0 (- 2000 / 3) (- 1000), Vector3 (- 1200) (- 4000 / 3) (- 10000 / 7)]"
    by (simp add: scatterLoop.simps Math_random_def initialVisualizer_def demoRandom_def)
  have s2: "scatter (targets (scatterLoop 0
               ((initialVisualizer (demoRandom\<lparr>used := 7\<rparr>))\<lparr>imageCount := 2\<rparr>))) =
            [Vector3 (- 14000 / 9) (- 1600) (- 18000 / 11),
             Vector3 (- 5000 / 3) (- 22000 / 13) (- 12000 / 7)]"
    by (simp add: scatterLoop.simps Math_random_def initialVisualizer_def demoRandom_def)
  from vw(1,2) s1 s2 have "scatter (targets v) =
            [Vector3 0 (- 2000 / 3) (- 1000), Vector3 (- 1200) (- 4000 / 3) (- 10000 / 7)]"
    "scatter (targets w) =
            [Vector3 (- 14000 / 9) (- 1600) (- 18000 / 11),
             Vector3 (- 5000 / 3) (- 22000 / 13) (- 12000 / 7)]"
    by (simp_all add: createObjects_scatter)
  with vw have "\<exists>v w. createObjects ((initialVisualizer demoRandom)\<lparr>imageCount := 2\<rparr>) = Inr v
        \<and> createObjects ((initialVisualizer (demoRandom\<lparr>used := 7\<rparr>))\<lparr>imageCount := 2\<rparr>) = Inr w
        \<and> tree (targets v) = tree (targets w)
        \<and> length (tree (targets v)) = 2
        \<and> length (scatter (targets v)) = 2
        \<and> scatter (targets v) =
            [Vector3 0 (- 2000 / 3) (- 1000), Vector3 (- 1200) (- 4000 / 3) (- 10000 / 7)]
        \<and> scatter (targets w) =
            [Vector3 (- 14000 / 9) (- 1600) (- 18000 / 11),
             Vector3 (- 5000 / 3) (- 22000 / 13) (- 12000 / 7)]"
    by (intro exI [of _ v] exI [of _ w] conjI)
  with h1 h2 show ?thesis by (intro conjI)
qed

end
